theory Spec2Isabelle
  imports Main "HOL-Library.Word"
begin

unbundle bit_operations_syntax

section \<open>Bytes, errors and results\<close>

text \<open>
  A Python \<open>bytes\<close>/\<open>bytearray\<close> value is a list of 8-bit words.  Every exception the
  modelled code can raise is a constructor of \<open>error\<close>; a function that can raise returns
  \<open>error + 'a\<close>, with \<open>Inl\<close> for the exception.
\<close>

type_synonym byte = "8 word"
type_synonym bytes = "byte list"

datatype error =
    IndexError
  | StructError
  | GOSTHashError string
  | ValueError string
  | KeyError string
  | TypeError
  | ZeroDivisionError
  | OverflowError
  | UnboundLocalError
  | SystemExit

definition bind_e :: "error + 'a \<Rightarrow> ('a \<Rightarrow> error + 'b) \<Rightarrow> error + 'b" where
  "bind_e r f = (case r of Inl e \<Rightarrow> Inl e | Inr v \<Rightarrow> f v)"

section \<open>Streebog: constants of \<open>gosthash/gost_34_11_2012.py\<close>\<close>

definition BLOCK_SIZE :: nat where
  "BLOCK_SIZE = 64"

definition V_0 :: bytes where
  "V_0 = replicate BLOCK_SIZE 0"

definition V_512 :: bytes where
  "V_512 = [0x00, 0x02] @ replicate 62 0x00"

definition TAU :: "nat list" where
  "TAU =
    [0, 8, 16, 24, 32, 40, 48, 56,
     1, 9, 17, 25, 33, 41, 49, 57,
     2, 10, 18, 26, 34, 42, 50, 58,
     3, 11, 19, 27, 35, 43, 51, 59,
     4, 12, 20, 28, 36, 44, 52, 60,
     5, 13, 21, 29, 37, 45, 53, 61,
     6, 14, 22, 30, 38, 46, 54, 62,
     7, 15, 23, 31, 39, 47, 55, 63]"

text \<open>The tables \<open>_A\<close> (64 constants of 64 bits) and \<open>_C\<close> (12 round constants of 64 bytes).\<close>

definition A_consts :: "64 word list" where
  "A_consts =
    [0x8e20faa72ba0b470, 0x47107ddd9b505a38,
     0xad08b0e0c3282d1c, 0xd8045870ef14980e,
     0x6c022c38f90a4c07, 0x3601161cf205268d,
     0x1b8e0b0e798c13c8, 0x83478b07b2468764,
     0xa011d380818e8f40, 0x5086e740ce47c920,
     0x2843fd2067adea10, 0x14aff010bdd87508,
     0x0ad97808d06cb404, 0x05e23c0468365a02,
     0x8c711e02341b2d01, 0x46b60f011a83988e,
     0x90dab52a387ae76f, 0x486dd4151c3dfdb9,
     0x24b86a840e90f0d2, 0x125c354207487869,
     0x092e94218d243cba, 0x8a174a9ec8121e5d,
     0x4585254f64090fa0, 0xaccc9ca9328a8950,
     0x9d4df05d5f661451, 0xc0a878a0a1330aa6,
     0x60543c50de970553, 0x302a1e286fc58ca7,
     0x18150f14b9ec46dd, 0x0c84890ad27623e0,
     0x0642ca05693b9f70, 0x0321658cba93c138,
     0x86275df09ce8aaa8, 0x439da0784e745554,
     0xafc0503c273aa42a, 0xd960281e9d1d5215,
     0xe230140fc0802984, 0x71180a8960409a42,
     0xb60c05ca30204d21, 0x5b068c651810a89e,
     0x456c34887a3805b9, 0xac361a443d1c8cd2,
     0x561b0d22900e4669, 0x2b838811480723ba,
     0x9bcf4486248d9f5d, 0xc3e9224312c8c1a0,
     0xeffa11af0964ee50, 0xf97d86d98a327728,
     0xe4fa2054a80b329c, 0x727d102a548b194e,
     0x39b008152acb8227, 0x9258048415eb419d,
     0x492c024284fbaec0, 0xaa16012142f35760,
     0x550b8e9e21f7a530, 0xa48b474f9ef5dc18,
     0x70a6a56e2440598e, 0x3853dc371220a247,
     0x1ca76e95091051ad, 0x0edd37c48a08a6d8,
     0x07e095624504536c, 0x8d70c431ac02a736,
     0xc83862965601dd1b, 0x641c314b2b8ee083]"

definition C_consts :: "bytes list" where
  "C_consts =
    [[0x07, 0x45, 0xa6, 0xf2, 0x59, 0x65, 0x80, 0xdd,
      0x23, 0x4d, 0x74, 0xcc, 0x36, 0x74, 0x76, 0x05,
      0x15, 0xd3, 0x60, 0xa4, 0x08, 0x2a, 0x42, 0xa2,
      0x01, 0x69, 0x67, 0x92, 0x91, 0xe0, 0x7c, 0x4b,
      0xfc, 0xc4, 0x85, 0x75, 0x8d, 0xb8, 0x4e, 0x71,
      0x16, 0xd0, 0x45, 0x2e, 0x43, 0x76, 0x6a, 0x2f,
      0x1f, 0x7c, 0x65, 0xc0, 0x81, 0x2f, 0xcb, 0xeb,
      0xe9, 0xda, 0xca, 0x1e, 0xda, 0x5b, 0x08, 0xb1],
     [0xb7, 0x9b, 0xb1, 0x21, 0x70, 0x04, 0x79, 0xe6,
      0x56, 0xcd, 0xcb, 0xd7, 0x1b, 0xa2, 0xdd, 0x55,
      0xca, 0xa7, 0x0a, 0xdb, 0xc2, 0x61, 0xb5, 0x5c,
      0x58, 0x99, 0xd6, 0x12, 0x6b, 0x17, 0xb5, 0x9a,
      0x31, 0x01, 0xb5, 0x16, 0x0f, 0x5e, 0xd5, 0x61,
      0x98, 0x2b, 0x23, 0x0a, 0x72, 0xea, 0xfe, 0xf3,
      0xd7, 0xb5, 0x70, 0x0f, 0x46, 0x9d, 0xe3, 0x4f,
      0x1a, 0x2f, 0x9d, 0xa9, 0x8a, 0xb5, 0xa3, 0x6f],
     [0xb2, 0x0a, 0xba, 0x0a, 0xf5, 0x96, 0x1e, 0x99,
      0x31, 0xdb, 0x7a, 0x86, 0x43, 0xf4, 0xb6, 0xc2,
      0x09, 0xdb, 0x62, 0x60, 0x37, 0x3a, 0xc9, 0xc1,
      0xb1, 0x9e, 0x35, 0x90, 0xe4, 0x0f, 0xe2, 0xd3,
      0x7b, 0x7b, 0x29, 0xb1, 0x14, 0x75, 0xea, 0xf2,
      0x8b, 0x1f, 0x9c, 0x52, 0x5f, 0x5e, 0xf1, 0x06,
      0x35, 0x84, 0x3d, 0x6a, 0x28, 0xfc, 0x39, 0x0a,
      0xc7, 0x2f, 0xce, 0x2b, 0xac, 0xdc, 0x74, 0xf5],
     [0x2e, 0xd1, 0xe3, 0x84, 0xbc, 0xbe, 0x0c, 0x22,
      0xf1, 0x37, 0xe8, 0x93, 0xa1, 0xea, 0x53, 0x34,
      0xbe, 0x03, 0x52, 0x93, 0x33, 0x13, 0xb7, 0xd8,
      0x75, 0xd6, 0x03, 0xed, 0x82, 0x2c, 0xd7, 0xa9,
      0x3f, 0x35, 0x5e, 0x68, 0xad, 0x1c, 0x72, 0x9d,
      0x7d, 0x3c, 0x5c, 0x33, 0x7e, 0x85, 0x8e, 0x48,
      0xdd, 0xe4, 0x71, 0x5d, 0xa0, 0xe1, 0x48, 0xf9,
      0xd2, 0x66, 0x15, 0xe8, 0xb3, 0xdf, 0x1f, 0xef],
     [0x57, 0xfe, 0x6c, 0x7c, 0xfd, 0x58, 0x17, 0x60,
      0xf5, 0x63, 0xea, 0xa9, 0x7e, 0xa2, 0x56, 0x7a,
      0x16, 0x1a, 0x27, 0x23, 0xb7, 0x00, 0xff, 0xdf,
      0xa3, 0xf5, 0x3a, 0x25, 0x47, 0x17, 0xcd, 0xbf,
      0xbd, 0xff, 0x0f, 0x80, 0xd7, 0x35, 0x9e, 0x35,
      0x4a, 0x10, 0x86, 0x16, 0x1f, 0x1c, 0x15, 0x7f,
      0x63, 0x23, 0xa9, 0x6c, 0x0c, 0x41, 0x3f, 0x9a,
      0x99, 0x47, 0x47, 0xad, 0xac, 0x6b, 0xea, 0x4b],
     [0x6e, 0x7d, 0x64, 0x46, 0x7a, 0x40, 0x68, 0xfa,
      0x35, 0x4f, 0x90, 0x36, 0x72, 0xc5, 0x71, 0xbf,
      0xb6, 0xc6, 0xbe, 0xc2, 0x66, 0x1f, 0xf2, 0x0a,
      0xb4, 0xb7, 0x9a, 0x1c, 0xb7, 0xa6, 0xfa, 0xcf,
      0xc6, 0x8e, 0xf0, 0x9a, 0xb4, 0x9a, 0x7f, 0x18,
      0x6c, 0xa4, 0x42, 0x51, 0xf9, 0xc4, 0x66, 0x2d,
      0xc0, 0x39, 0x30, 0x7a, 0x3b, 0xc3, 0xa4, 0x6f,
      0xd9, 0xd3, 0x3a, 0x1d, 0xae, 0xae, 0x4f, 0xae],
     [0x93, 0xd4, 0x14, 0x3a, 0x4d, 0x56, 0x86, 0x88,
      0xf3, 0x4a, 0x3c, 0xa2, 0x4c, 0x45, 0x17, 0x35,
      0x04, 0x05, 0x4a, 0x28, 0x83, 0x69, 0x47, 0x06,
      0x37, 0x2c, 0x82, 0x2d, 0xc5, 0xab, 0x92, 0x09,
      0xc9, 0x93, 0x7a, 0x19, 0x33, 0x3e, 0x47, 0xd3,
      0xc9, 0x87, 0xbf, 0xe6, 0xc7, 0xc6, 0x9e, 0x39,
      0x54, 0x09, 0x24, 0xbf, 0xfe, 0x86, 0xac, 0x51,
      0xec, 0xc5, 0xaa, 0xee, 0x16, 0x0e, 0xc7, 0xf4],
     [0x1e, 0xe7, 0x02, 0xbf, 0xd4, 0x0d, 0x7f, 0xa4,
      0xd9, 0xa8, 0x51, 0x59, 0x35, 0xc2, 0xac, 0x36,
      0x2f, 0xc4, 0xa5, 0xd1, 0x2b, 0x8d, 0xd1, 0x69,
      0x90, 0x06, 0x9b, 0x92, 0xcb, 0x2b, 0x89, 0xf4,
      0x9a, 0xc4, 0xdb, 0x4d, 0x3b, 0x44, 0xb4, 0x89,
      0x1e, 0xde, 0x36, 0x9c, 0x71, 0xf8, 0xb7, 0x4e,
      0x41, 0x41, 0x6e, 0x0c, 0x02, 0xaa, 0xe7, 0x03,
      0xa7, 0xc9, 0x93, 0x4d, 0x42, 0x5b, 0x1f, 0x9b],
     [0xdb, 0x5a, 0x23, 0x83, 0x51, 0x44, 0x61, 0x72,
      0x60, 0x2a, 0x1f, 0xcb, 0x92, 0xdc, 0x38, 0x0e,
      0x54, 0x9c, 0x07, 0xa6, 0x9a, 0x8a, 0x2b, 0x7b,
      0xb1, 0xce, 0xb2, 0xdb, 0x0b, 0x44, 0x0a, 0x80,
      0x84, 0x09, 0x0d, 0xe0, 0xb7, 0x55, 0xd9, 0x3c,
      0x24, 0x42, 0x89, 0x25, 0x1b, 0x3a, 0x7d, 0x3a,
      0xde, 0x5f, 0x16, 0xec, 0xd8, 0x9a, 0x4c, 0x94,
      0x9b, 0x22, 0x31, 0x16, 0x54, 0x5a, 0x8f, 0x37],
     [0xed, 0x9c, 0x45, 0x98, 0xfb, 0xc7, 0xb4, 0x74,
      0xc3, 0xb6, 0x3b, 0x15, 0xd1, 0xfa, 0x98, 0x36,
      0xf4, 0x52, 0x76, 0x3b, 0x30, 0x6c, 0x1e, 0x7a,
      0x4b, 0x33, 0x69, 0xaf, 0x02, 0x67, 0xe7, 0x9f,
      0x03, 0x61, 0x33, 0x1b, 0x8a, 0xe1, 0xff, 0x1f,
      0xdb, 0x78, 0x8a, 0xff, 0x1c, 0xe7, 0x41, 0x89,
      0xf3, 0xf3, 0xe4, 0xb2, 0x48, 0xe5, 0x2a, 0x38,
      0x52, 0x6f, 0x05, 0x80, 0xa6, 0xde, 0xbe, 0xab],
     [0x1b, 0x2d, 0xf3, 0x81, 0xcd, 0xa4, 0xca, 0x6b,
      0x5d, 0xd8, 0x6f, 0xc0, 0x4a, 0x59, 0xa2, 0xde,
      0x98, 0x6e, 0x47, 0x7d, 0x1d, 0xcd, 0xba, 0xef,
      0xca, 0xb9, 0x48, 0xea, 0xef, 0x71, 0x1d, 0x8a,
      0x79, 0x66, 0x84, 0x14, 0x21, 0x80, 0x01, 0x20,
      0x61, 0x07, 0xab, 0xeb, 0xbb, 0x6b, 0xfa, 0xd8,
      0x94, 0xfe, 0x5a, 0x63, 0xcd, 0xc6, 0x02, 0x30,
      0xfb, 0x89, 0xc8, 0xef, 0xd0, 0x9e, 0xcd, 0x7b],
     [0x20, 0xd7, 0x1b, 0xf1, 0x4a, 0x92, 0xbc, 0x48,
      0x99, 0x1b, 0xb2, 0xd9, 0xd5, 0x17, 0xf4, 0xfa,
      0x52, 0x28, 0xe1, 0x88, 0xaa, 0xa4, 0x1d, 0xe7,
      0x86, 0xcc, 0x91, 0x18, 0x9d, 0xef, 0x80, 0x5d,
      0x9b, 0x9f, 0x21, 0x30, 0xd4, 0x12, 0x20, 0xf8,
      0x77, 0x1d, 0xdf, 0xbc, 0x32, 0x3c, 0xa4, 0xcd,
      0x7a, 0xb1, 0x49, 0x04, 0xb0, 0x80, 0x13, 0xd2,
      0xba, 0x31, 0x16, 0xf1, 0x67, 0xe7, 0x8e, 0x37]]"

section \<open>Streebog: the block primitives\<close>

text \<open>
  \<open>_hash_add_512\<close>: the loop \<open>for i in range(64)\<close> keeps the running value \<open>op_c\<close>
  (a Python integer, here a natural number) and stores its low byte at index \<open>i\<close>.
  Reading \<open>op_a[i]\<close> or \<open>op_b[i]\<close> beyond the end raises \<open>IndexError\<close>.
\<close>

fun hash_add_512_loop :: "bytes \<Rightarrow> bytes \<Rightarrow> nat list \<Rightarrow> nat \<Rightarrow> bytes \<Rightarrow> error + bytes" where
  "hash_add_512_loop op_a op_b [] op_c result = Inr result"
| "hash_add_512_loop op_a op_b (i # rest) op_c result =
     (if i < length op_a \<and> i < length op_b then
        (let op_c' = unat (op_a ! i) + unat (op_b ! i) + drop_bit 8 op_c
         in hash_add_512_loop op_a op_b rest op_c' (result[i := word_of_nat (op_c' AND 0xff)]))
      else Inl IndexError)"

definition hash_add_512 :: "bytes \<Rightarrow> bytes \<Rightarrow> error + bytes" where
  "hash_add_512 op_a op_b =
     hash_add_512_loop op_a op_b [0..<BLOCK_SIZE] 0 (replicate BLOCK_SIZE 0)"

text \<open>
  \<open>_hash_p\<close>: the loop \<open>for i in range(63, -1, -1)\<close> stores \<open>data[_TAU[i]]\<close> at index
  \<open>i\<close> of a fresh 64-byte result.
\<close>

fun hash_p_loop :: "bytes \<Rightarrow> nat list \<Rightarrow> bytes \<Rightarrow> error + bytes" where
  "hash_p_loop data [] result = Inr result"
| "hash_p_loop data (i # rest) result =
     (if TAU ! i < length data then hash_p_loop data rest (result[i := data ! (TAU ! i)])
      else Inl IndexError)"

definition hash_p :: "bytes \<Rightarrow> error + bytes" where
  "hash_p data = hash_p_loop data (rev [0..<BLOCK_SIZE]) (replicate BLOCK_SIZE 0)"

text \<open>
  \<open>_hash_s\<close>: the loop \<open>for i in range(63, -1, -1)\<close> stores \<open>S_BOX[data[i]]\<close> at index
  \<open>i\<close>.  The table \<open>S_BOX\<close> is imported from \<open>gostcrypto.utils\<close>; it has one entry for
  each byte value and is a parameter \<open>sbox\<close> of the model.
\<close>

fun hash_s_loop :: "(byte \<Rightarrow> byte) \<Rightarrow> bytes \<Rightarrow> nat list \<Rightarrow> bytes \<Rightarrow> error + bytes" where
  "hash_s_loop sbox data [] result = Inr result"
| "hash_s_loop sbox data (i # rest) result =
     (if i < length data then hash_s_loop sbox data rest (result[i := sbox (data ! i)])
      else Inl IndexError)"

definition hash_s :: "(byte \<Rightarrow> byte) \<Rightarrow> bytes \<Rightarrow> error + bytes" where
  "hash_s sbox data = hash_s_loop sbox data (rev [0..<BLOCK_SIZE]) (replicate BLOCK_SIZE 0)"

text \<open>
  \<open>struct.unpack('<Q', b)\<close> reads exactly eight bytes as a little-endian 64-bit unsigned
  integer and raises \<open>struct.error\<close> on any other length; \<open>struct.pack('<Q', n)\<close> writes
  the eight bytes back.
\<close>

fun le_word :: "bytes \<Rightarrow> 64 word" where
  "le_word [] = 0"
| "le_word (b # bs) = ucast b OR push_bit 8 (le_word bs)"

definition unpack_Q :: "bytes \<Rightarrow> error + 64 word" where
  "unpack_Q bs = (if length bs = 8 then Inr (le_word bs) else Inl StructError)"

definition pack_Q :: "64 word \<Rightarrow> bytes" where
  "pack_Q w = map (\<lambda>k. ucast (drop_bit (8 * k) w)) [0..<8]"

text \<open>
  \<open>_hash_l\<close>: for each of the eight lanes, the inner loop \<open>for j in range(63, -1, -1)\<close>
  XORs \<open>_A[j]\<close> into \<open>result_64\<close> when the low bit of \<open>internal\<close> is set and shifts
  \<open>internal\<close> right by one.
\<close>

fun hash_l_bits :: "nat list \<Rightarrow> 64 word \<Rightarrow> 64 word \<Rightarrow> 64 word" where
  "hash_l_bits [] internal result_64 = result_64"
| "hash_l_bits (j # rest) internal result_64 =
     hash_l_bits rest (drop_bit 1 internal)
       (if internal AND 1 \<noteq> 0 then result_64 XOR A_consts ! j else result_64)"

fun hash_l_loop :: "bytes \<Rightarrow> nat list \<Rightarrow> bytes list \<Rightarrow> error + bytes" where
  "hash_l_loop data [] result = Inr (concat result)"
| "hash_l_loop data (i # rest) result =
     bind_e (unpack_Q (take 8 (drop (i * 8) data)))
       (\<lambda>internal. hash_l_loop data rest
          (result @ [pack_Q (hash_l_bits (rev [0..<BLOCK_SIZE]) internal 0)]))"

definition hash_l :: "bytes \<Rightarrow> error + bytes" where
  "hash_l data = hash_l_loop data [0..<8] []"

text \<open>
  Modelled from the spec: \<open>add_xor\<close> of \<open>gostcrypto.utils\<close>, whose source is not part of
  the files at hand.  The specification gives it as the bytewise XOR of two equal-length
  byte sequences, which fails if the lengths differ.
\<close>

definition add_xor :: "bytes \<Rightarrow> bytes \<Rightarrow> error + bytes" where
  "add_xor op_a op_b =
     (if length op_a = length op_b then Inr (map2 (XOR) op_a op_b)
      else Inl (ValueError ''add_xor: operands of different lengths''))"

definition hash_get_key :: "(byte \<Rightarrow> byte) \<Rightarrow> bytes \<Rightarrow> nat \<Rightarrow> error + bytes" where
  "hash_get_key sbox k i =
     (if i < length C_consts then
        bind_e (add_xor k (C_consts ! i)) (\<lambda>key.
        bind_e (hash_s sbox key) (\<lambda>key.
        bind_e (hash_p key) (\<lambda>key.
        hash_l key)))
      else Inl IndexError)"

fun hash_e_loop :: "(byte \<Rightarrow> byte) \<Rightarrow> nat list \<Rightarrow> bytes \<Rightarrow> bytes \<Rightarrow> error + bytes" where
  "hash_e_loop sbox [] k internal = Inr internal"
| "hash_e_loop sbox (i # rest) k internal =
     bind_e (hash_s sbox internal) (\<lambda>internal.
     bind_e (hash_p internal) (\<lambda>internal.
     bind_e (hash_l internal) (\<lambda>internal.
     bind_e (hash_get_key sbox k i) (\<lambda>k.
     bind_e (add_xor internal k) (\<lambda>internal.
     hash_e_loop sbox rest k internal)))))"

definition hash_e :: "(byte \<Rightarrow> byte) \<Rightarrow> bytes \<Rightarrow> bytes \<Rightarrow> error + bytes" where
  "hash_e sbox k data =
     bind_e (add_xor k data) (\<lambda>internal. hash_e_loop sbox [0..<12] k internal)"

definition hash_g :: "(byte \<Rightarrow> byte) \<Rightarrow> bytes \<Rightarrow> bytes \<Rightarrow> bytes \<Rightarrow> error + bytes" where
  "hash_g sbox hash_h hash_n data =
     bind_e (add_xor hash_n hash_h) (\<lambda>k.
     bind_e (hash_s sbox k) (\<lambda>k.
     bind_e (hash_p k) (\<lambda>k.
     bind_e (hash_l k) (\<lambda>k.
     bind_e (hash_e sbox k data) (\<lambda>internal.
     bind_e (add_xor internal hash_h) (\<lambda>internal.
     add_xor internal data))))))"

section \<open>Streebog: the hashing object\<close>

text \<open>The attributes of a \<open>GOST34112012\<close> object.\<close>

record hasher =
  name :: string
  buff :: bytes
  num_block :: nat
  pad_block_size :: int
  hash_h :: bytes
  hash_n :: bytes
  hash_sigma :: bytes

text \<open>
  \<open>update\<close>: \<open>data\<close> is first rebound to \<open>self._buff + data\<close>; the loop
  \<open>for i in range(0, num_block * 64, 64)\<close> compresses the block \<open>data[i:i + 64]\<close>; the tail
  is stored in \<open>_buff\<close> only under the guard \<open>_pad_block_size < _BLOCK_SIZE\<close>.  The
  \<open>isinstance\<close> test always passes here, \<open>data\<close> being typed as a byte string.
\<close>

fun update_loop ::
  "(byte \<Rightarrow> byte) \<Rightarrow> bytes \<Rightarrow> nat list \<Rightarrow> bytes \<times> bytes \<times> bytes \<Rightarrow> error + bytes \<times> bytes \<times> bytes" where
  "update_loop sbox data [] hns = Inr hns"
| "update_loop sbox data (i # rest) (h, n, sigma) =
     (let block = take BLOCK_SIZE (drop i data) in
      bind_e (hash_g sbox h n block) (\<lambda>h'.
      bind_e (hash_add_512 n V_512) (\<lambda>n'.
      bind_e (hash_add_512 sigma block) (\<lambda>sigma'.
      update_loop sbox data rest (h', n', sigma')))))"

definition update :: "(byte \<Rightarrow> byte) \<Rightarrow> hasher \<Rightarrow> bytes \<Rightarrow> error + hasher" where
  "update sbox self data0 =
     (let data = buff self @ data0;
          nb = length data div BLOCK_SIZE
      in bind_e (update_loop sbox data (map (\<lambda>k. k * BLOCK_SIZE) [0..<nb])
                   (hash_h self, hash_n self, hash_sigma self))
           (\<lambda>(h, n, sigma).
              let pad = int BLOCK_SIZE - int (length data mod BLOCK_SIZE);
                  self' = self\<lparr>num_block := nb, hash_h := h, hash_n := n, hash_sigma := sigma,
                               pad_block_size := pad\<rparr>
              in Inr (if pad < int BLOCK_SIZE
                      then self'\<lparr>buff := drop (length data - nat (int BLOCK_SIZE - pad)) data\<rparr>
                      else self')))"

text \<open>
  \<open>hash_final\<close>: pads \<open>_buff\<close> with one byte \<open>0x01\<close> and zero bytes, compresses it, adds
  the bit length of the tail to \<open>_hash_n\<close>, and compresses \<open>_hash_n\<close> and \<open>_hash_sigma\<close>.
\<close>

definition hash_final :: "(byte \<Rightarrow> byte) \<Rightarrow> hasher \<Rightarrow> error + hasher" where
  "hash_final sbox self =
     (let pad = int BLOCK_SIZE - int (length (buff self));
          bits = (int BLOCK_SIZE - pad) * 8;
          internal = (replicate BLOCK_SIZE 0)
                       [1 := word_of_int (drop_bit 8 bits AND 0xff), 0 := word_of_int (bits AND 0xff)];
          buff' = (if pad \<le> int BLOCK_SIZE
                   then (buff self @ [0x01]) @ replicate (nat (pad - 1)) 0x00
                   else buff self)
      in bind_e (hash_g sbox (hash_h self) (hash_n self) buff') (\<lambda>h1.
         bind_e (hash_add_512 (hash_n self) internal) (\<lambda>n1.
         bind_e (hash_add_512 (hash_sigma self) buff') (\<lambda>sigma1.
         bind_e (hash_g sbox h1 V_0 n1) (\<lambda>h2.
         bind_e (hash_g sbox h2 V_0 sigma1) (\<lambda>h3.
         Inr (self\<lparr>pad_block_size := pad, buff := buff', hash_h := h3, hash_n := n1,
                    hash_sigma := sigma1\<rparr>)))))))"

definition digest_size :: "hasher \<Rightarrow> nat" where
  "digest_size self = (if name self = ''streebog512'' then 64 else 32)"

definition get_hash :: "hasher \<Rightarrow> bytes" where
  "get_hash self = drop (length (hash_h self) - digest_size self) (hash_h self)"

text \<open>\<open>digest\<close> finalises a deep copy, so the object itself stays as it is.\<close>

definition digest :: "(byte \<Rightarrow> byte) \<Rightarrow> hasher \<Rightarrow> error + bytes" where
  "digest sbox self = bind_e (hash_final sbox self) (\<lambda>temp. Inr (get_hash temp))"


definition GOST34112012_init :: "(byte \<Rightarrow> byte) \<Rightarrow> string \<Rightarrow> bytes \<Rightarrow> error + hasher" where
  "GOST34112012_init sbox nm data =
     (let self = \<lparr>name = nm, buff = [], num_block = 0, pad_block_size = 0,
                  hash_h = (if nm = ''streebog256'' then replicate BLOCK_SIZE 0x01
                            else replicate BLOCK_SIZE 0),
                  hash_n = replicate BLOCK_SIZE 0, hash_sigma = replicate BLOCK_SIZE 0\<rparr>
      in if data \<noteq> [] then update sbox self data else Inr self)"

definition gosthash_new :: "(byte \<Rightarrow> byte) \<Rightarrow> string \<Rightarrow> bytes \<Rightarrow> error + hasher" where
  "gosthash_new sbox nm data =
     (if nm \<noteq> ''streebog512'' \<and> nm \<noteq> ''streebog256''
      then Inl (GOSTHashError ''GOSTHashError: unsupported hash type'')
      else GOST34112012_init sbox nm data)"


text \<open>
  Modelled from the spec: the table \<open>S_BOX\<close> of \<open>gostcrypto.utils\<close>, whose source is not
  part of the files at hand.  The specification names it as the \<open>\<pi>\<close> substitution table of
  GOST R 34.11-2012, 256 entries indexed by a byte.
\<close>

definition S_BOX_table :: "byte list" where
  "S_BOX_table =
    [252, 238, 221, 17, 207, 110, 49, 22, 251, 196, 250, 218, 35, 197, 4, 77,
     233, 119, 240, 219, 147, 46, 153, 186, 23, 54, 241, 187, 20, 205, 95, 193,
     249, 24, 101, 90, 226, 92, 239, 33, 129, 28, 60, 66, 139, 1, 142, 79,
     5, 132, 2, 174, 227, 106, 143, 160, 6, 11, 237, 152, 127, 212, 211, 31,
     235, 52, 44, 81, 234, 200, 72, 171, 242, 42, 104, 162, 253, 58, 206, 204,
     181, 112, 14, 86, 8, 12, 118, 18, 191, 114, 19, 71, 156, 183, 93, 135,
     21, 161, 150, 41, 16, 123, 154, 199, 243, 145, 120, 111, 157, 158, 178, 177,
     50, 117, 25, 61, 255, 53, 138, 126, 109, 84, 198, 128, 195, 189, 13, 87,
     223, 245, 36, 169, 62, 168, 67, 201, 215, 121, 214, 246, 124, 34, 185, 3,
     224, 15, 236, 222, 122, 148, 176, 188, 220, 232, 40, 80, 78, 51, 10, 74,
     167, 151, 96, 115, 30, 0, 98, 68, 26, 184, 56, 130, 100, 159, 38, 65,
     173, 69, 70, 146, 39, 94, 85, 47, 140, 163, 165, 125, 105, 213, 149, 59,
     7, 88, 179, 64, 134, 172, 29, 247, 48, 55, 107, 228, 136, 217, 231, 137,
     225, 27, 131, 73, 76, 63, 248, 254, 141, 83, 170, 144, 202, 216, 133, 97,
     32, 113, 103, 164, 45, 43, 9, 91, 203, 155, 37, 208, 190, 229, 108, 82,
     89, 166, 116, 210, 230, 244, 180, 192, 209, 102, 175, 194, 57, 75, 99, 182]"

definition S_BOX :: "byte \<Rightarrow> byte" where
  "S_BOX b = S_BOX_table ! unat b"

text \<open>
  What the two ways of feeding \<open>a\<close> and then \<open>b\<close> to a fresh hasher of variant \<open>nm\<close>
  leave behind: \<open>s2\<close> after \<open>update(a)\<close>, \<open>update(b)\<close> and \<open>t\<close> after \<open>update(a + b)\<close>
  agree on \<open>_hash_h\<close>, \<open>_hash_n\<close> and \<open>_hash_sigma\<close>, but \<open>s2\<close> still holds \<open>a\<close> in
  \<open>_buff\<close>, and its digest is the digest after \<open>update(a + b + a)\<close>.
\<close>

definition stale_after_split :: "(byte \<Rightarrow> byte) \<Rightarrow> string \<Rightarrow> bytes \<Rightarrow> bytes \<Rightarrow> bool" where
  "stale_after_split sbox nm a b \<longleftrightarrow>
     (\<exists>s0 s1 s2 t. gosthash_new sbox nm [] = Inr s0 \<and>
        update sbox s0 a = Inr s1 \<and> update sbox s1 b = Inr s2 \<and>
        update sbox s0 (a @ b) = Inr t \<and>
        buff s2 = a \<and> buff t = [] \<and>
        hash_h s2 = hash_h t \<and> hash_n s2 = hash_n t \<and> hash_sigma s2 = hash_sigma t \<and>
        digest sbox s2 = bind_e (update sbox s0 (a @ b @ a)) (digest sbox))"

section \<open>Signature: helpers of \<open>gostcrypto.utils\<close>\<close>

text \<open>
  Modelled from the spec: \<open>bytearray_to_int\<close>, \<open>int_to_bytearray\<close>, \<open>compare\<close>,
  \<open>compare_to_zero\<close> and \<open>zero_fill\<close> of \<open>gostcrypto.utils\<close>, whose source is not part of
  the files at hand.  The specification gives them as the big-endian unsigned conversion, the
  big-endian encoding in a fixed width that fails if the number does not fit, the equality of
  byte strings, and the test that every byte is zero.
\<close>

definition bytearray_to_int :: "bytes \<Rightarrow> int" where
  "bytearray_to_int bs = foldl (\<lambda>n b. 256 * n + uint b) 0 bs"

definition int_to_bytearray :: "int \<Rightarrow> nat \<Rightarrow> error + bytes" where
  "int_to_bytearray n width =
     (if 0 \<le> n \<and> n < 256 ^ width
      then Inr (map (\<lambda>i. word_of_int (n div 256 ^ (width - 1 - i))) [0..<width])
      else Inl OverflowError)"

definition compare :: "bytes \<Rightarrow> bytes \<Rightarrow> bool" where
  "compare op_a op_b \<longleftrightarrow> op_a = op_b"

definition compare_to_zero :: "bytes \<Rightarrow> bool" where
  "compare_to_zero op_a \<longleftrightarrow> list_all (\<lambda>b. b = 0) op_a"

text \<open>
  Byte buffers live in a store, a list of objects addressed by their index; a Python
  variable holding a buffer holds its address.

  Modelled from the spec: \<open>zero_fill\<close> of \<open>gostcrypto.utils\<close>.  Its callers pass it a
  length only, so it can do no more than return a new buffer of that many zero bytes: the
  store grows by one object and the address of that object is returned.
\<close>

type_synonym store = "bytes list"

definition zero_fill :: "store \<Rightarrow> nat \<Rightarrow> store \<times> nat" where
  "zero_fill st n = (st @ [replicate n 0], length st)"

section \<open>Signature: the object of \<open>gostsignature/gost_34_10_2012.py\<close>\<close>

definition MODE_256 :: int where
  "MODE_256 = 0x01"

definition MODE_512 :: int where
  "MODE_512 = 0x02"

text \<open>
  The keyword arguments of \<open>GOST34102012.__init__\<close>: \<open>new\<close> passes integers for
  \<open>p\<close>, \<open>m\<close>, \<open>q\<close> and an integer or \<open>None\<close> for the others.
\<close>

record curve_param =
  arg_p :: int
  arg_a :: "int option"
  arg_b :: "int option"
  arg_e :: "int option"
  arg_d :: "int option"
  arg_m :: int
  arg_q :: int
  arg_x :: "int option"
  arg_y :: "int option"
  arg_u :: "int option"
  arg_v :: "int option"

text \<open>
  The attributes of a constructed object.  When \<open>__init__\<close> returns, \<open>_a\<close>, \<open>_b\<close>,
  \<open>_x\<close> and \<open>_y\<close> are integers: given or computed by \<open>_edvards_to_canonical\<close>.
\<close>

record GOST34102012 =
  self_p :: int
  self_a :: int
  self_b :: int
  self_e :: "int option"
  self_d :: "int option"
  self_m :: int
  self_q :: int
  self_x :: int
  self_y :: int
  self_u :: "int option"
  self_v :: "int option"
  self_size :: nat

text \<open>
  \<open>_invert\<close>: the nested recursive \<open>gcdex\<close>.  Python's \<open>%\<close> and \<open>//\<close> round towards
  minus infinity, as \<open>mod\<close> and \<open>div\<close> on \<open>int\<close> do.
\<close>

function gcdex :: "int \<Rightarrow> int \<Rightarrow> int \<times> int \<times> int" where
  "gcdex val n_mod =
     (if n_mod = 0 then (val, 1, 0)
      else (case gcdex n_mod (val mod n_mod) of
              (gcd_r, x_value, y_value) \<Rightarrow> (gcd_r, y_value, x_value - y_value * (val div n_mod))))"
  by pat_completeness auto
termination
  by (relation "measure (\<lambda>(val, n_mod). nat \<bar>n_mod\<bar>)") (auto simp: abs_mod_less)

definition invert :: "int \<Rightarrow> int \<Rightarrow> int" where
  "invert val n_mod =
     (let result = fst (snd (gcdex val n_mod))
      in if result < 0 then result + n_mod else result)"

text \<open>
  \<open>_add\<close>: the four encodings are computed first, in the order \<open>x_1\<close>, \<open>x_2\<close>, \<open>y_1\<close>,
  \<open>y_2\<close>; each branch then reduces modulo \<open>_p\<close>, which raises \<open>ZeroDivisionError\<close> when
  \<open>_p\<close> is zero.
\<close>

definition add :: "GOST34102012 \<Rightarrow> int \<Rightarrow> int \<Rightarrow> int \<Rightarrow> int \<Rightarrow> error + int \<times> int" where
  "add self x_1 x_2 y_1 y_2 =
     bind_e (int_to_bytearray x_1 (self_size self)) (\<lambda>bx_1.
     bind_e (int_to_bytearray x_2 (self_size self)) (\<lambda>bx_2.
     bind_e (int_to_bytearray y_1 (self_size self)) (\<lambda>by_1.
     bind_e (int_to_bytearray y_2 (self_size self)) (\<lambda>by_2.
       let compare_x = compare bx_1 bx_2;
           compare_y = compare by_1 by_2
       in if self_p self = 0 then Inl ZeroDivisionError
          else
            let grad =
                  (if compare_x \<and> compare_y
                   then (3 * x_1 * x_1 + self_a self) * invert (2 * y_1) (self_p self) mod self_p self
                   else (let d_x = (x_2 - x_1) mod self_p self;
                             d_y = (y_2 - y_1) mod self_p self
                         in (d_y * invert d_x (self_p self)) mod self_p self));
                x_3 = (grad * grad - x_1 - x_2) mod self_p self;
                y_3 = (grad * (x_1 - x_3) - y_1) mod self_p self
            in Inr (x_3, y_3)))))"

text \<open>
  \<open>_mul_point\<close>: the loop \<open>for bit in self._bits(mul_value)\<close> runs the generator
  \<open>while value: yield value & 1; value = value >> 1\<close> in step with its body.  For a
  negative \<open>value\<close> the generator never stops; the result \<open>None\<close> stands for a call that
  does not return.  Callers pass either no point or both coordinates, as integers; the
  test \<open>if x_op or y_op\<close> takes an integer as true when it is not zero.
\<close>

partial_function (option) mul_point_loop ::
  "GOST34102012 \<Rightarrow> int \<Rightarrow> int \<Rightarrow> int \<Rightarrow> int \<Rightarrow> int \<Rightarrow> (error + int \<times> int) option" where
  "mul_point_loop self val x_next y_next x_prev y_prev =
     (if val \<noteq> 0 then
        (case (if val AND 1 = 1 then add self x_next x_prev y_next y_prev
               else Inr (x_next, y_next)) of
           Inl e \<Rightarrow> Some (Inl e)
         | Inr (x_next', y_next') \<Rightarrow>
             (case add self x_prev x_prev y_prev y_prev of
                Inl e \<Rightarrow> Some (Inl e)
              | Inr (x_prev', y_prev') \<Rightarrow>
                  mul_point_loop self (drop_bit 1 val) x_next' y_next' x_prev' y_prev'))
      else Some (Inr (x_next, y_next)))"

definition truthy :: "int \<Rightarrow> bool" where
  "truthy n \<longleftrightarrow> n \<noteq> 0"

definition mul_point ::
  "GOST34102012 \<Rightarrow> int \<Rightarrow> (int \<times> int) option \<Rightarrow> (error + int \<times> int) option" where
  "mul_point self mul_value op =
     (let mul_value' = mul_value - 1;
          (x_prev, y_prev) =
             (case op of
                Some (x_op, y_op) \<Rightarrow>
                  if truthy x_op \<or> truthy y_op then (x_op, y_op)
                  else (self_x self, self_y self)
              | None \<Rightarrow> (self_x self, self_y self))
      in mul_point_loop self mul_value' x_prev y_prev x_prev y_prev)"

text \<open>
  \<open>_edvards_to_canonical\<close>: \<open>None\<close> in \<open>_e\<close>, \<open>_d\<close>, \<open>_v\<close> or \<open>_u\<close> raises
  \<open>TypeError\<close> where it is first used in arithmetic.
\<close>

definition edvards_to_canonical ::
  "curve_param \<Rightarrow> error + int \<times> int \<times> int \<times> int" where
  "edvards_to_canonical cp =
     (case (arg_e cp, arg_d cp) of
        (Some e, Some d) \<Rightarrow>
          if arg_p cp = 0 then Inl ZeroDivisionError
          else
            let p = arg_p cp;
                ed_s = (e - d) * invert 4 p mod p;
                ed_t = (e + d) * invert 6 p mod p;
                a = (ed_s ^ 2 - 3 * ed_t ^ 2) mod p;
                b = (2 * ed_t ^ 3 - ed_t * ed_s ^ 2) mod p
            in (case arg_v cp of
                  None \<Rightarrow> Inl TypeError
                | Some v \<Rightarrow>
                    let x = ((ed_s * (1 + v)) * invert (1 - v) p + ed_t) mod p
                    in (case arg_u cp of
                          None \<Rightarrow> Inl TypeError
                        | Some u \<Rightarrow>
                            let y = ((ed_s * (1 + v)) * invert ((1 - v) * u) p) mod p
                            in Inr (a, b, x, y)))
      | _ \<Rightarrow> Inl TypeError)"

text \<open>
  The two loops of \<open>__init__\<close> over the exponents: \<open>for i in range(1, 32)\<close> tests
  \<open>self._p ** i\<close> in mode 256, \<open>for i in range(1, 132)\<close> tests \<open>self._p ** 1\<close> in
  mode 512.
\<close>

fun check_256 :: "int \<Rightarrow> int \<Rightarrow> nat list \<Rightarrow> error + unit" where
  "check_256 p q [] = Inr ()"
| "check_256 p q (i # rest) =
     (if q = 0 then Inl ZeroDivisionError
      else if p ^ i mod q = 1 mod q
      then Inl (ValueError ''ValueError: invalid parameters of the elliptic curve'')
      else check_256 p q rest)"

fun check_512 :: "int \<Rightarrow> int \<Rightarrow> nat list \<Rightarrow> error + unit" where
  "check_512 p q [] = Inr ()"
| "check_512 p q (i # rest) =
     (if q = 0 then Inl ZeroDivisionError
      else if p ^ 1 mod q = 1 mod q
      then Inl (ValueError ''ValueError: invalid parameters of the elliptic curve'')
      else check_512 p q rest)"

definition GOST34102012_init :: "int \<Rightarrow> curve_param \<Rightarrow> error + GOST34102012" where
  "GOST34102012_init mode cp =
     (if mode \<noteq> MODE_256 \<and> mode \<noteq> MODE_512
      then Inl (ValueError ''ValueError: unsupported signature mode'')
      else
        bind_e (case (arg_a cp, arg_b cp, arg_x cp, arg_y cp) of
                  (Some a, Some b, Some x, Some y) \<Rightarrow> Inr (a, b, x, y)
                | _ \<Rightarrow> edvards_to_canonical cp)
          (\<lambda>(a, b, x, y).
        if arg_m cp = arg_p cp
        then Inl (ValueError ''ValueError: invalid parameters of the elliptic curve'')
        else
          bind_e (if mode = MODE_256 then
                    bind_e (check_256 (arg_p cp) (arg_q cp) [1..<32]) (\<lambda>_.
                      if arg_q cp < 2 ^ 254 \<or> arg_q cp > 2 ^ 256
                      then Inl (ValueError ''ValueError: invalid parameters of the elliptic curve'')
                      else Inr 32)
                  else
                    bind_e (check_512 (arg_p cp) (arg_q cp) [1..<132]) (\<lambda>_.
                      if arg_q cp < 2 ^ 508 \<or> arg_q cp > 2 ^ 512
                      then Inl (ValueError ''ValueError: invalid parameters of the elliptic curve'')
                      else Inr 64))
            (\<lambda>size.
          if arg_p cp = 0 then Inl ZeroDivisionError
          else
            let right_side_equation = y * y mod arg_p cp;
                left_side_equation = (x ^ 3 + x * a + b) mod arg_p cp
            in if right_side_equation \<noteq> left_side_equation
               then Inl (ValueError ''ValueError: invalid parameters of the elliptic curve'')
               else Inr \<lparr>self_p = arg_p cp, self_a = a, self_b = b, self_e = arg_e cp,
                         self_d = arg_d cp, self_m = arg_m cp, self_q = arg_q cp,
                         self_x = x, self_y = y, self_u = arg_u cp, self_v = arg_v cp,
                         self_size = size\<rparr>)))"








text \<open>
  \<open>verify\<close>.  The result \<open>None\<close> stands for a call that does not return
  (\<open>_mul_point\<close> on zero).
\<close>

definition verify :: "GOST34102012 \<Rightarrow> bytes \<Rightarrow> bytes \<Rightarrow> bytes \<Rightarrow> (error + bool) option" where
  "verify self public_key dgst signature =
     (if length signature \<noteq> self_size self * 2
      then Some (Inl (ValueError ''ValueError: invalid signature size''))
      else
        let public_key' = (bytearray_to_int (take (self_size self) public_key),
                           bytearray_to_int (drop (self_size self) public_key));
            sign_r = bytearray_to_int (take (self_size self) signature);
            sign_s = bytearray_to_int (drop (self_size self) signature)
        in if sign_r \<le> 0 \<or> sign_r \<ge> self_q self \<or> sign_s \<le> 0 \<or> sign_s \<ge> self_q self
           then Some (Inr False)
           else if self_q self = 0 then Some (Inl ZeroDivisionError)
           else
             let sign_e = bytearray_to_int dgst mod self_q self
             in (case int_to_bytearray sign_e (self_size self) of
                   Inl e \<Rightarrow> Some (Inl e)
                 | Inr bs \<Rightarrow>
                     let sign_e = (if compare_to_zero bs then 1 else sign_e);
                         sign_v = invert sign_e (self_q self);
                         sign_z_1 = sign_s * sign_v mod self_q self;
                         sign_z_2 = self_q self - sign_r * sign_v mod self_q self
                     in (case mul_point self sign_z_1 None of
                           None \<Rightarrow> None
                         | Some (Inl e) \<Rightarrow> Some (Inl e)
                         | Some (Inr sign_p) \<Rightarrow>
                             (case mul_point self sign_z_2 (Some public_key') of
                                None \<Rightarrow> None
                              | Some (Inl e) \<Rightarrow> Some (Inl e)
                              | Some (Inr sign_q) \<Rightarrow>
                                  (case add self (fst sign_p) (fst sign_q) (snd sign_p) (snd sign_q) of
                                     Inl e \<Rightarrow> Some (Inl e)
                                   | Inr sign_c \<Rightarrow>
                                       let sign_r_check = fst sign_c mod self_q self
                                       in (case int_to_bytearray sign_r_check (self_size self) of
                                             Inl e \<Rightarrow> Some (Inl e)
                                           | Inr check_bytes \<Rightarrow>
                                               (case int_to_bytearray sign_r (self_size self) of
                                                  Inl e \<Rightarrow> Some (Inl e)
                                                | Inr r_bytes \<Rightarrow>
                                                    Some (Inr (compare check_bytes r_bytes)))))))))"

text \<open>
  \<open>sign\<close>.  The argument \<open>private_key\<close> is the address of the caller's buffer in the
  store; the results carry the store as it is when the call returns or raises.
  \<open>os.urandom\<close> is a sequence \<open>urandom\<close> of draws, read from position \<open>pos\<close> on.

  The innermost loop \<open>while bytearray_to_int(sign_rand_k) >= self._q\<close> draws again.
\<close>

partial_function (option) urandom_loop ::
  "(nat \<Rightarrow> bytes) \<Rightarrow> int \<Rightarrow> nat \<Rightarrow> bytes \<Rightarrow> (bytes \<times> nat) option" where
  "urandom_loop urandom q pos sign_rand_k =
     (if bytearray_to_int sign_rand_k \<ge> q
      then urandom_loop urandom q (Suc pos) (urandom pos)
      else Some (sign_rand_k, pos))"

text \<open>
  The choice of \<open>sign_rand_k\<close> in the body of the inner loop.  On a \<open>rand_k\<close> of the
  wrong size the local variable \<open>private_key\<close> is rebound to the result of \<open>zero_fill\<close>
  and \<open>ValueError\<close> is raised.
\<close>

definition sign_rand_k ::
  "GOST34102012 \<Rightarrow> store \<Rightarrow> nat \<Rightarrow> bytes option \<Rightarrow> (nat \<Rightarrow> bytes) \<Rightarrow> nat \<Rightarrow>
     ((error \<times> store) + (bytes \<times> nat)) option" where
  "sign_rand_k self st private_key rand_k urandom pos =
     (case rand_k of
        None \<Rightarrow>
          (case urandom_loop urandom (self_q self) (Suc pos) (urandom pos) of
             None \<Rightarrow> None
           | Some r \<Rightarrow> Some (Inr r))
      | Some rk \<Rightarrow>
          if length rk \<noteq> self_size self
          then (let (st', private_key') = zero_fill st (length (st ! private_key))
                in Some (Inl (ValueError ''ValueError: invalid random value size'', st')))
          else Some (Inr (rk, pos)))"

text \<open>The inner loop \<open>while compare_to_zero(int_to_bytearray(sign_r, self._size))\<close>.\<close>

partial_function (option) sign_r_loop ::
  "GOST34102012 \<Rightarrow> store \<Rightarrow> nat \<Rightarrow> bytes option \<Rightarrow> (nat \<Rightarrow> bytes) \<Rightarrow> nat \<Rightarrow> int \<Rightarrow> int \<Rightarrow>
     ((error \<times> store) + (int \<times> int \<times> nat)) option" where
  "sign_r_loop self st private_key rand_k urandom pos sign_r sign_k =
     (case int_to_bytearray sign_r (self_size self) of
        Inl e \<Rightarrow> Some (Inl (e, st))
      | Inr bs \<Rightarrow>
          if compare_to_zero bs then
            (case sign_rand_k self st private_key rand_k urandom pos of
               None \<Rightarrow> None
             | Some (Inl es) \<Rightarrow> Some (Inl es)
             | Some (Inr (rk, pos')) \<Rightarrow>
                 (case mul_point self (bytearray_to_int rk) None of
                    None \<Rightarrow> None
                  | Some (Inl e) \<Rightarrow> Some (Inl (e, st))
                  | Some (Inr sign_c) \<Rightarrow>
                      if self_q self = 0 then Some (Inl (ZeroDivisionError, st))
                      else sign_r_loop self st private_key rand_k urandom pos'
                             (fst sign_c mod self_q self) (bytearray_to_int rk)))
          else Some (Inr (sign_r, sign_k, pos)))"

text \<open>The outer loop \<open>while compare_to_zero(int_to_bytearray(sign_s, self._size))\<close>.\<close>

partial_function (option) sign_s_loop ::
  "GOST34102012 \<Rightarrow> store \<Rightarrow> nat \<Rightarrow> bytes option \<Rightarrow> (nat \<Rightarrow> bytes) \<Rightarrow> int \<Rightarrow> nat \<Rightarrow> int \<Rightarrow> int \<Rightarrow> int \<Rightarrow>
     ((error \<times> store) + (int \<times> int)) option" where
  "sign_s_loop self st private_key rand_k urandom sign_e pos sign_r sign_s sign_k =
     (case int_to_bytearray sign_s (self_size self) of
        Inl e \<Rightarrow> Some (Inl (e, st))
      | Inr bs \<Rightarrow>
          if compare_to_zero bs then
            (case sign_r_loop self st private_key rand_k urandom pos sign_r sign_k of
               None \<Rightarrow> None
             | Some (Inl es) \<Rightarrow> Some (Inl es)
             | Some (Inr (sign_r', sign_k', pos')) \<Rightarrow>
                 if self_q self = 0 then Some (Inl (ZeroDivisionError, st))
                 else sign_s_loop self st private_key rand_k urandom sign_e pos' sign_r'
                        ((sign_r' * bytearray_to_int (st ! private_key) + sign_k' * sign_e)
                           mod self_q self)
                        sign_k')
          else Some (Inr (sign_r, sign_s)))"

definition sign ::
  "GOST34102012 \<Rightarrow> store \<Rightarrow> nat \<Rightarrow> bytes \<Rightarrow> bytes option \<Rightarrow> (nat \<Rightarrow> bytes) \<Rightarrow>
     ((error + bytes) \<times> store) option" where
  "sign self st private_key dgst rand_k urandom =
     (if length (st ! private_key) \<noteq> self_size self
      then Some (Inl (ValueError ''ValueError: invalid private key size''), st)
      else if self_q self = 0 then Some (Inl ZeroDivisionError, st)
      else
        let sign_e = bytearray_to_int dgst mod self_q self
        in (case int_to_bytearray sign_e (self_size self) of
              Inl e \<Rightarrow> Some (Inl e, st)
            | Inr bs \<Rightarrow>
                let sign_e = (if compare_to_zero bs then 1 else sign_e)
                in (case sign_s_loop self st private_key rand_k urandom sign_e 0 0 0 0 of
                      None \<Rightarrow> None
                    | Some (Inl (e, st')) \<Rightarrow> Some (Inl e, st')
                    | Some (Inr (sign_r, sign_s)) \<Rightarrow>
                        (case int_to_bytearray sign_r (self_size self) of
                           Inl e \<Rightarrow> Some (Inl e, st)
                         | Inr sign_r \<Rightarrow>
                             (case int_to_bytearray sign_s (self_size self) of
                                Inl e \<Rightarrow> Some (Inl e, st)
                              | Inr sign_s \<Rightarrow>
                                  (let (st', private_key') = zero_fill st (length (st ! private_key))
                                   in Some (Inr (sign_r @ sign_s), st')))))))"

text \<open>
  \<open>public_key_generate\<close>: the local variable \<open>private_key\<close> is rebound to the integer
  read from the buffer and, before the return, to \<open>0\<close>.
\<close>

definition public_key_generate ::
  "GOST34102012 \<Rightarrow> store \<Rightarrow> nat \<Rightarrow> ((error + bytes) \<times> store) option" where
  "public_key_generate self st private_key =
     (if length (st ! private_key) \<noteq> self_size self
      then Some (Inl (ValueError ''ValueError: invalid private key size''), st)
      else
        let private_key' = bytearray_to_int (st ! private_key)
        in (case mul_point self private_key' None of
              None \<Rightarrow> None
            | Some (Inl e) \<Rightarrow> Some (Inl e, st)
            | Some (Inr public_key) \<Rightarrow>
                (case int_to_bytearray (fst public_key) (self_size self) of
                   Inl e \<Rightarrow> Some (Inl e, st)
                 | Inr public_key_x \<Rightarrow>
                     (case int_to_bytearray (snd public_key) (self_size self) of
                        Inl e \<Rightarrow> Some (Inl e, st)
                      | Inr public_key_y \<Rightarrow>
                          (let private_key'' = (0::int)
                           in Some (Inr (public_key_x @ public_key_y), st))))))"

section \<open>Reference: double-and-add\<close>

text \<open>
  The ordinary right-to-left double-and-add computation of \<open>[k]P\<close>, to compare
  \<open>_mul_point\<close> with: the accumulator \<open>R\<close> starts as the point at infinity (\<open>None\<close>), to
  which adding \<open>Q\<close> gives \<open>Q\<close>; for each bit of \<open>k\<close> from the lowest, \<open>Q\<close> is added to
  \<open>R\<close> when the bit is set, and \<open>Q\<close> is doubled.  Addition and doubling of points are
  \<open>_add\<close>.
\<close>

function double_and_add_loop ::
  "GOST34102012 \<Rightarrow> nat \<Rightarrow> (int \<times> int) option \<Rightarrow> int \<times> int \<Rightarrow> error + (int \<times> int) option" where
  "double_and_add_loop self k R Q =
     (if k = 0 then Inr R
      else
        (case (if odd k
               then (case R of
                       None \<Rightarrow> Inr (Some Q)
                     | Some (x_r, y_r) \<Rightarrow>
                         (case add self x_r (fst Q) y_r (snd Q) of
                            Inl e \<Rightarrow> Inl e
                          | Inr r \<Rightarrow> Inr (Some r)))
               else Inr R) of
           Inl e \<Rightarrow> Inl e
         | Inr R' \<Rightarrow>
             (case add self (fst Q) (fst Q) (snd Q) (snd Q) of
                Inl e \<Rightarrow> Inl e
              | Inr Q' \<Rightarrow> double_and_add_loop self (k div 2) R' Q')))"
  by pat_completeness auto
termination
  by (relation "measure (\<lambda>(self, k, R, Q). k)") auto

declare double_and_add_loop.simps [simp del]

definition double_and_add :: "GOST34102012 \<Rightarrow> nat \<Rightarrow> int \<times> int \<Rightarrow> error + (int \<times> int) option" where
  "double_and_add self k P = double_and_add_loop self k None P"


section \<open>A small curve for worked instances\<close>

text \<open>
  The curve \<open>y\<^sup>2 = x\<^sup>3 + 3x\<close> over the integers modulo 11 with base point \<open>(1, 2)\<close> and
  \<open>q = 2\<^sup>2\<^sup>5\<^sup>4\<close>: parameters with short arithmetic that the constructor accepts in mode
  256, and the object it builds from them.
\<close>

text \<open>The 32-byte big-endian encoding of a number below 256.\<close>

definition be32 :: "byte \<Rightarrow> bytes" where
  "be32 b = replicate 31 0 @ [b]"

text \<open>The curve equation as \<open>__init__\<close> tests it on the base point.\<close>

definition on_curve :: "GOST34102012 \<Rightarrow> int \<times> int \<Rightarrow> bool" where
  "on_curve self P \<longleftrightarrow>
     snd P * snd P mod self_p self = (fst P ^ 3 + fst P * self_a self + self_b self) mod self_p self"

definition small_curve :: curve_param where
  "small_curve =
     \<lparr>arg_p = 11, arg_a = Some 3, arg_b = Some 0, arg_e = None, arg_d = None, arg_m = 12,
      arg_q = 2 ^ 254, arg_x = Some 1, arg_y = Some 2, arg_u = None, arg_v = None\<rparr>"

definition small_ctx :: GOST34102012 where
  "small_ctx =
     \<lparr>self_p = 11, self_a = 3, self_b = 0, self_e = None, self_d = None, self_m = 12,
      self_q = 2 ^ 254, self_x = 1, self_y = 2, self_u = None, self_v = None, self_size = 32\<rparr>"

text \<open>The value of a byte string read as a little-endian unsigned integer.\<close>

fun le_int :: "bytes \<Rightarrow> nat" where
  "le_int [] = 0"
| "le_int (b # bs) = unat b + 256 * le_int bs"

section \<open>Properties of the block primitives\<close>

lemma le_int_append: "le_int (xs @ ys) = le_int xs + 256 ^ length xs * le_int ys"
  by (induction xs) (simp_all add: algebra_simps)

lemma le_int_bound: "le_int xs < 256 ^ length xs"
proof (induction xs)
  case Nil
  show ?case by simp
next
  case (Cons b bs)
  have "unat b < 256" using unsigned_less [of b] by simp
  moreover have "le_int bs + 1 \<le> 256 ^ length bs" using Cons by simp
  then have "256 * (le_int bs + 1) \<le> 256 * 256 ^ length bs" by (rule mult_le_mono2)
  ultimately show ?case by simp
qed

lemma le_int_take_Suc:
  "k < length xs \<Longrightarrow> le_int (take (Suc k) xs) = le_int (take k xs) + 256 ^ k * unat (xs ! k)"
  by (simp add: take_Suc_conv_app_nth le_int_append)

lemma nat_and_255: "(x::nat) AND 0xff = x mod 256"
proof -
  have "x AND mask 8 = take_bit 8 x" by (simp add: take_bit_eq_mask)
  then show ?thesis by (simp add: mask_eq_exp_minus_1 take_bit_eq_mod)
qed

lemma unat_low_byte: "unat (word_of_nat (x mod 256) :: byte) = x mod 256"
  by (simp add: unat_of_nat)

lemma hash_add_512_loop_sum:
  assumes "length op_a = 64" "length op_b = 64"
  shows "k \<le> 64 \<Longrightarrow> length result = 64 \<Longrightarrow>
    le_int (take k result) + 256 ^ k * (op_c div 256) = le_int (take k op_a) + le_int (take k op_b) \<Longrightarrow>
    \<exists>r c. hash_add_512_loop op_a op_b [k..<64] op_c result = Inr r \<and> length r = 64 \<and>
      le_int r + 256 ^ 64 * c = le_int op_a + le_int op_b"
proof (induction "64 - k" arbitrary: k op_c result)
  case 0
  then have "k = 64" by simp
  with 0 assms show ?case by auto
next
  case (Suc n)
  then have k: "k < 64" by simp
  define c' where "c' = unat (op_a ! k) + unat (op_b ! k) + op_c div 256"
  define result' where "result' = result[k := (word_of_nat (c' mod 256) :: byte)]"
  have len: "length result' = 64" using Suc.prems by (simp add: result'_def)
  have tk: "take k result' = take k result" by (simp add: result'_def)
  have nk: "result' ! k = word_of_nat (c' mod 256)"
    using k Suc.prems by (simp add: result'_def)
  have "le_int (take (Suc k) result') + 256 ^ Suc k * (c' div 256)
      = le_int (take k result) + (256 ^ k * (c' mod 256) + 256 ^ k * (256 * (c' div 256)))"
    using k len by (simp add: le_int_take_Suc tk nk unat_low_byte)
  also have "\<dots> = le_int (take k result) + 256 ^ k * (c' mod 256 + 256 * (c' div 256))"
    by (simp only: distrib_left)
  also have "\<dots> = le_int (take k result) + 256 ^ k * c'" by simp
  also have "\<dots> = le_int (take (Suc k) op_a) + le_int (take (Suc k) op_b)"
    using k assms Suc.prems(3) by (simp add: le_int_take_Suc c'_def algebra_simps)
  finally have inv: "le_int (take (Suc k) result') + 256 ^ Suc k * (c' div 256)
      = le_int (take (Suc k) op_a) + le_int (take (Suc k) op_b)" .
  have "n = 64 - Suc k" using Suc.hyps(2) by simp
  from Suc.hyps(1) [OF this _ len inv] k
  obtain r c where "hash_add_512_loop op_a op_b [Suc k..<64] c' result' = Inr r"
    "length r = 64" "le_int r + 256 ^ 64 * c = le_int op_a + le_int op_b" by auto
  moreover have "hash_add_512_loop op_a op_b [k..<64] op_c result
      = hash_add_512_loop op_a op_b [Suc k..<64] c' result'"
    using k assms
    by (simp add: upt_conv_Cons Let_def c'_def result'_def drop_bit_eq_div nat_and_255)
  ultimately show ?case by auto
qed

lemma TAU_length: "length TAU = 64"
  by (simp add: TAU_def)

lemma TAU_range: "i < 64 \<Longrightarrow> TAU ! i < 64"
proof -
  have "list_all (\<lambda>i. TAU ! i < 64) [0..<64]" by code_simp
  then show "i < 64 \<Longrightarrow> TAU ! i < 64" by (simp add: list_all_iff)
qed

lemma TAU_involution: "i < 64 \<Longrightarrow> TAU ! (TAU ! i) = i"
proof -
  have "list_all (\<lambda>i. TAU ! (TAU ! i) = i) [0..<64]" by code_simp
  then show "i < 64 \<Longrightarrow> TAU ! (TAU ! i) = i" by (simp add: list_all_iff)
qed

lemma hash_p_loop_fold:
  "length data = 64 \<Longrightarrow> \<forall>i\<in>set idx. i < 64 \<Longrightarrow>
   hash_p_loop data idx result = Inr (fold (\<lambda>i r. r[i := data ! (TAU ! i)]) idx result)"
  by (induction idx arbitrary: result) (simp_all add: TAU_range)

lemma fold_update_length:
  "length (fold (\<lambda>i r. r[i := f i]) idx result) = length result"
  by (induction idx arbitrary: result) simp_all

lemma fold_update_nth:
  "i \<in> set idx \<Longrightarrow> i < length result \<Longrightarrow> (fold (\<lambda>i r. r[i := f i]) idx result) ! i = f i"
proof (induction idx arbitrary: result rule: rev_induct)
  case Nil
  then show ?case by simp
next
  case (snoc j idx)
  show ?case
  proof (cases "i = j")
    case True
    with snoc.prems show ?thesis by (simp add: fold_update_length)
  next
    case False
    with snoc show ?thesis by simp
  qed
qed

lemma hash_p_value:
  assumes "length data = 64"
  shows "\<exists>r. hash_p data = Inr r \<and> length r = 64 \<and> (\<forall>i<64. r ! i = data ! (TAU ! i))"
proof -
  let ?r = "fold (\<lambda>i r. r[i := data ! (TAU ! i)]) (rev [0..<64]) (replicate 64 0)"
  have "hash_p data = Inr ?r"
    using assms by (simp add: hash_p_def BLOCK_SIZE_def hash_p_loop_fold)
  moreover have "length ?r = 64" by (simp add: fold_update_length)
  moreover have "\<forall>i<64. ?r ! i = data ! (TAU ! i)"
    by (simp add: fold_update_nth)
  ultimately show ?thesis by blast
qed

text \<open>
  C6. For 64-byte arrays \<open>a\<close> and \<open>b\<close>, \<open>_hash_add_512(a, b)\<close> returns a 64-byte array
  whose little-endian value is \<open>(le_int a + le_int b) mod 2^512\<close>.
\<close>

theorem hash_add_512_correct:
  assumes "length a = 64" and "length b = 64"
  shows "\<exists>r. hash_add_512 a b = Inr r \<and> length r = 64 \<and>
             le_int r = (le_int a + le_int b) mod 2 ^ 512"
proof -
  have "\<exists>r c. hash_add_512_loop a b [0..<64] 0 (replicate 64 0) = Inr r \<and> length r = 64 \<and>
      le_int r + 256 ^ 64 * c = le_int a + le_int b"
    by (rule hash_add_512_loop_sum [OF assms]) simp_all
  then obtain r c where r: "hash_add_512 a b = Inr r" "length r = 64"
    and sum: "le_int r + 256 ^ 64 * c = le_int a + le_int b"
    by (auto simp: hash_add_512_def BLOCK_SIZE_def)
  have "le_int r < 256 ^ 64" using le_int_bound [of r] r by simp
  then have "(le_int r + 256 ^ 64 * c) mod 256 ^ 64 = le_int r" by simp
  with sum have "le_int r = (le_int a + le_int b) mod 256 ^ 64" by simp
  moreover have "(256::nat) ^ 64 = 2 ^ 512" by simp
  ultimately have "le_int r = (le_int a + le_int b) mod 2 ^ 512" by simp
  with r show ?thesis by blast
qed

theorem hash_add_512_correct_witness:
  "\<exists>r. hash_add_512 (replicate 64 0xff) (1 # replicate 63 0) = Inr r \<and> length r = 64 \<and>
       le_int r = (le_int (replicate 64 0xff) + le_int (1 # replicate 63 0)) mod 2 ^ 512"
  using hash_add_512_correct [of "replicate 64 0xff" "1 # replicate 63 0"] by simp

text \<open>
  C9. \<open>_hash_p\<close> is an involution on 64-byte arrays: applying it twice gives the input back.
\<close>

theorem hash_p_involution:
  assumes "length x = 64"
  shows "\<exists>y. hash_p x = Inr y \<and> hash_p y = Inr x"
proof -
  from hash_p_value [OF assms] obtain y where
    y: "hash_p x = Inr y" "length y = 64" "\<forall>i<64. y ! i = x ! (TAU ! i)" by blast
  from hash_p_value [OF y(2)] obtain z where
    z: "hash_p y = Inr z" "length z = 64" "\<forall>i<64. z ! i = y ! (TAU ! i)" by blast
  have "z = x"
  proof (rule nth_equalityI)
    show "length z = length x" using z assms by simp
  next
    fix i assume "i < length z"
    then have i: "i < 64" using z by simp
    then have "z ! i = y ! (TAU ! i)" using z by simp
    also have "\<dots> = x ! (TAU ! (TAU ! i))" using y TAU_range [OF i] by simp
    also have "\<dots> = x ! i" using TAU_involution [OF i] by simp
    finally show "z ! i = x ! i" .
  qed
  with y z show ?thesis by simp
qed

theorem hash_p_involution_witness:
  "\<exists>y. hash_p (map word_of_nat [0..<64]) = Inr y \<and> hash_p y = Inr (map word_of_nat [0..<64])"
  using hash_p_involution [of "map word_of_nat [0..<64]"] by simp

section \<open>Properties of the hashing object\<close>

text \<open>On 64-byte operands every block primitive returns a 64-byte result.\<close>

lemma bind_e_Inr [simp]: "bind_e (Inr v) f = f v"
  by (simp add: bind_e_def)

lemma bind_e_Inl [simp]: "bind_e (Inl e) f = Inl e"
  by (simp add: bind_e_def)

lemma add_xor_total:
  "length a = n \<Longrightarrow> length b = n \<Longrightarrow> \<exists>r. add_xor a b = Inr r \<and> length r = n"
  by (simp add: add_xor_def)

lemma hash_s_loop_total:
  "\<forall>i\<in>set idx. i < length data \<Longrightarrow>
   \<exists>r. hash_s_loop sbox data idx result = Inr r \<and> length r = length result"
proof (induction idx arbitrary: result)
  case Nil
  show ?case by simp
next
  case (Cons i idx)
  from Cons.prems have "\<forall>i\<in>set idx. i < length data" by simp
  from Cons.IH [OF this, of "result[i := sbox (data ! i)]"] Cons.prems
  show ?case by simp
qed

lemma hash_s_total:
  "length data = 64 \<Longrightarrow> \<exists>r. hash_s sbox data = Inr r \<and> length r = 64"
  using hash_s_loop_total [of "rev [0..<64]" data sbox "replicate 64 0"]
  by (simp add: hash_s_def BLOCK_SIZE_def)

lemma hash_p_total:
  "length data = 64 \<Longrightarrow> \<exists>r. hash_p data = Inr r \<and> length r = 64"
  using hash_p_value [of data] by blast

lemma length_pack_Q: "length (pack_Q w) = 8"
  by (simp add: pack_Q_def)

lemma hash_l_loop_total:
  "\<forall>i\<in>set idx. i * 8 + 8 \<le> length data \<Longrightarrow>
   \<exists>r. hash_l_loop data idx result = Inr r \<and> length r = length (concat result) + 8 * length idx"
proof (induction idx arbitrary: result)
  case Nil
  show ?case by simp
next
  case (Cons i idx)
  have "i * 8 + 8 \<le> length data" using Cons.prems by simp
  then have "length (take 8 (drop (i * 8) data)) = 8" by simp
  then have u: "unpack_Q (take 8 (drop (i * 8) data)) = Inr (le_word (take 8 (drop (i * 8) data)))"
    by (simp add: unpack_Q_def)
  from Cons.prems have "\<forall>i\<in>set idx. i * 8 + 8 \<le> length data" by simp
  from Cons.IH [OF this, of "result @ [pack_Q (hash_l_bits (rev [0..<BLOCK_SIZE])
      (le_word (take 8 (drop (i * 8) data))) 0)]"]
  show ?case by (auto simp: u length_pack_Q)
qed

lemma hash_l_total:
  "length data = 64 \<Longrightarrow> \<exists>r. hash_l data = Inr r \<and> length r = 64"
  using hash_l_loop_total [of "[0..<8]" data "[]"] by (auto simp: hash_l_def)

lemma C_consts_length: "i < 12 \<Longrightarrow> length (C_consts ! i) = 64"
proof -
  have "list_all (\<lambda>i. length (C_consts ! i) = 64) [0..<12]" by code_simp
  then show "i < 12 \<Longrightarrow> length (C_consts ! i) = 64" by (simp add: list_all_iff)
qed

lemma C_consts_size: "length C_consts = 12"
  by (simp add: C_consts_def)

lemma hash_get_key_total:
  assumes "length k = 64" "i < 12"
  shows "\<exists>r. hash_get_key sbox k i = Inr r \<and> length r = 64"
proof -
  from add_xor_total [OF assms(1) C_consts_length [OF assms(2)]]
  obtain k1 where k1: "add_xor k (C_consts ! i) = Inr k1" "length k1 = 64" by blast
  from hash_s_total [OF k1(2)] obtain k2 where k2: "hash_s sbox k1 = Inr k2" "length k2 = 64" by blast
  from hash_p_total [OF k2(2)] obtain k3 where k3: "hash_p k2 = Inr k3" "length k3 = 64" by blast
  from hash_l_total [OF k3(2)] obtain k4 where k4: "hash_l k3 = Inr k4" "length k4 = 64" by blast
  show ?thesis using assms(2) k1 k2 k3 k4 by (simp add: hash_get_key_def C_consts_size)
qed

lemma hash_e_loop_total:
  "\<forall>i\<in>set idx. i < 12 \<Longrightarrow> length k = 64 \<Longrightarrow> length internal = 64 \<Longrightarrow>
   \<exists>r. hash_e_loop sbox idx k internal = Inr r \<and> length r = 64"
proof (induction idx arbitrary: k internal)
  case Nil
  then show ?case by simp
next
  case (Cons i idx)
  from hash_s_total [OF Cons.prems(3)] obtain x1 where x1: "hash_s sbox internal = Inr x1" "length x1 = 64" by blast
  from hash_p_total [OF x1(2)] obtain x2 where x2: "hash_p x1 = Inr x2" "length x2 = 64" by blast
  from hash_l_total [OF x2(2)] obtain x3 where x3: "hash_l x2 = Inr x3" "length x3 = 64" by blast
  from Cons.prems(1) have i: "i < 12" by simp
  from hash_get_key_total [OF Cons.prems(2) i] obtain k' where
    k': "hash_get_key sbox k i = Inr k'" "length k' = 64" by blast
  from add_xor_total [OF x3(2) k'(2)] obtain x4 where x4: "add_xor x3 k' = Inr x4" "length x4 = 64" by blast
  from Cons.prems(1) have "\<forall>i\<in>set idx. i < 12" by simp
  from Cons.IH [OF this k'(2) x4(2)] show ?case by (simp add: x1 x2 x3 k' x4)
qed

lemma hash_e_total:
  assumes "length k = 64" "length data = 64"
  shows "\<exists>r. hash_e sbox k data = Inr r \<and> length r = 64"
proof -
  from add_xor_total [OF assms] obtain x where x: "add_xor k data = Inr x" "length x = 64" by blast
  have "\<forall>i\<in>set [0..<12]. i < 12" by simp
  from hash_e_loop_total [OF this assms(1) x(2)] show ?thesis by (simp add: hash_e_def x)
qed

lemma hash_g_total:
  assumes "length h = 64" "length n = 64" "length data = 64"
  shows "\<exists>r. hash_g sbox h n data = Inr r \<and> length r = 64"
proof -
  from add_xor_total [OF assms(2) assms(1)] obtain k1 where k1: "add_xor n h = Inr k1" "length k1 = 64" by blast
  from hash_s_total [OF k1(2)] obtain k2 where k2: "hash_s sbox k1 = Inr k2" "length k2 = 64" by blast
  from hash_p_total [OF k2(2)] obtain k3 where k3: "hash_p k2 = Inr k3" "length k3 = 64" by blast
  from hash_l_total [OF k3(2)] obtain k4 where k4: "hash_l k3 = Inr k4" "length k4 = 64" by blast
  from hash_e_total [OF k4(2) assms(3)] obtain x1 where x1: "hash_e sbox k4 data = Inr x1" "length x1 = 64" by blast
  from add_xor_total [OF x1(2) assms(1)] obtain x2 where x2: "add_xor x1 h = Inr x2" "length x2 = 64" by blast
  from add_xor_total [OF x2(2) assms(3)] obtain x3 where x3: "add_xor x2 data = Inr x3" "length x3 = 64" by blast
  show ?thesis by (simp add: hash_g_def k1 k2 k3 k4 x1 x2 x3)
qed

lemma hash_add_512_total:
  assumes "length a = 64" "length b = 64"
  shows "\<exists>r. hash_add_512 a b = Inr r \<and> length r = 64"
  using hash_add_512_loop_sum [OF assms, of 0 "replicate 64 0" 0]
  by (auto simp: hash_add_512_def BLOCK_SIZE_def)

lemma V_512_length: "length V_512 = 64"
  by (simp add: V_512_def)


lemma bind_e_assoc: "bind_e (bind_e m f) g = bind_e m (\<lambda>x. bind_e (f x) g)"
  by (cases m) simp_all

lemma update_loop_total:
  "\<forall>i\<in>set idx. i + 64 \<le> length data \<Longrightarrow> length h = 64 \<Longrightarrow> length n = 64 \<Longrightarrow> length sigma = 64 \<Longrightarrow>
   \<exists>h' n' sigma'. update_loop sbox data idx (h, n, sigma) = Inr (h', n', sigma') \<and>
      length h' = 64 \<and> length n' = 64 \<and> length sigma' = 64"
proof (induction idx arbitrary: h n sigma)
  case Nil
  then show ?case by simp
next
  case (Cons i idx)
  let ?block = "take 64 (drop i data)"
  have "i + 64 \<le> length data" using Cons.prems(1) by simp
  then have b: "length ?block = 64" by simp
  from hash_g_total [OF Cons.prems(2) Cons.prems(3) b] obtain h1 where
    h1: "hash_g sbox h n ?block = Inr h1" "length h1 = 64" by blast
  from hash_add_512_total [OF Cons.prems(3) V_512_length] obtain n1 where
    n1: "hash_add_512 n V_512 = Inr n1" "length n1 = 64" by blast
  from hash_add_512_total [OF Cons.prems(4) b] obtain s1 where
    s1: "hash_add_512 sigma ?block = Inr s1" "length s1 = 64" by blast
  from Cons.prems(1) have "\<forall>i\<in>set idx. i + 64 \<le> length data" by simp
  from Cons.IH [OF this h1(2) n1(2) s1(2)]
  show ?case by (simp add: BLOCK_SIZE_def h1 n1 s1)
qed


lemma update_unfold:
  "update sbox self data0 =
     bind_e (update_loop sbox (buff self @ data0)
               (map (\<lambda>k. k * 64) [0..<length (buff self @ data0) div 64])
               (hash_h self, hash_n self, hash_sigma self))
       (\<lambda>(h, n, sigma). Inr
          (if length (buff self @ data0) mod 64 \<noteq> 0
           then self\<lparr>num_block := length (buff self @ data0) div 64, hash_h := h, hash_n := n,
                     hash_sigma := sigma,
                     pad_block_size := 64 - int (length (buff self @ data0) mod 64),
                     buff := drop (length (buff self @ data0) - length (buff self @ data0) mod 64)
                               (buff self @ data0)\<rparr>
           else self\<lparr>num_block := length (buff self @ data0) div 64, hash_h := h, hash_n := n,
                     hash_sigma := sigma,
                     pad_block_size := 64 - int (length (buff self @ data0) mod 64)\<rparr>))"
  by (simp add: update_def BLOCK_SIZE_def Let_def cong: if_cong)





lemma digest_unfold:
  "digest sbox self =
     (let buff' = buff self @ [0x01] @ replicate (63 - length (buff self)) 0x00;
          internal = (replicate 64 0)
                       [1 := word_of_int (drop_bit 8 (int (length (buff self)) * 8) AND 0xff),
                        0 := word_of_int ((int (length (buff self)) * 8) AND 0xff)]
      in bind_e (hash_g sbox (hash_h self) (hash_n self) buff') (\<lambda>h1.
         bind_e (hash_add_512 (hash_n self) internal) (\<lambda>n1.
         bind_e (hash_add_512 (hash_sigma self) buff') (\<lambda>sigma1.
         bind_e (hash_g sbox h1 V_0 n1) (\<lambda>h2.
         bind_e (hash_g sbox h2 V_0 sigma1) (\<lambda>h3.
         Inr (drop (length h3 - (if name self = ''streebog512'' then 64 else 32)) h3)))))))"
proof -
  have "nat (64 - int (length (buff self)) - 1) = 63 - length (buff self)" by simp
  then show ?thesis
    by (simp add: digest_def hash_final_def get_hash_def digest_size_def BLOCK_SIZE_def Let_def
        bind_e_assoc)
qed

lemma digest_cong:
  assumes "name s = name t" "buff s = buff t" "hash_h s = hash_h t" "hash_n s = hash_n t"
    "hash_sigma s = hash_sigma t"
  shows "digest sbox s = digest sbox t"
  unfolding digest_unfold using assms by simp

lemma update_split_state:
  assumes nm: "nm = ''streebog256'' \<or> nm = ''streebog512''"
    and a: "0 < length a" "length a < 64" and ab: "length a + length b = 64"
  shows "stale_after_split sbox nm a b"
proof -
  define h0 :: bytes where "h0 = (if nm = ''streebog256'' then replicate 64 0x01 else replicate 64 0)"
  define s0 where "s0 = \<lparr>name = nm, buff = [], num_block = 0, pad_block_size = 0,
     hash_h = h0, hash_n = replicate 64 0, hash_sigma = replicate 64 0\<rparr>"
  have new: "gosthash_new sbox nm [] = Inr s0"
    using nm by (auto simp: gosthash_new_def GOST34112012_init_def s0_def h0_def BLOCK_SIZE_def)
  have la: "length a < 64" "0 < length a" using a by simp_all
  define s1 where "s1 = s0\<lparr>num_block := 0, hash_h := h0, hash_n := replicate 64 0,
     hash_sigma := replicate 64 0, pad_block_size := 64 - int (length a), buff := a\<rparr>"
  have u1: "update sbox s0 a = Inr s1"
    using la by (simp add: update_unfold s0_def s1_def)
  have lh: "length h0 = 64" by (simp add: h0_def)
  have "\<forall>i\<in>set [0::nat]. i + 64 \<le> length (a @ b)" using ab by simp
  from update_loop_total [OF this lh, of "replicate 64 0" "replicate 64 0" sbox]
  obtain h n sigma where
    loop: "update_loop sbox (a @ b) [0] (h0, replicate 64 0, replicate 64 0) = Inr (h, n, sigma)"
    by auto
  have tk: "take 64 (a @ b @ a) = a @ b" using ab by simp
  have loop': "update_loop sbox (a @ b @ a) [0] (h0, replicate 64 0, replicate 64 0) = Inr (h, n, sigma)"
    using loop ab by (simp add: BLOCK_SIZE_def tk)
  define s2 where "s2 = s1\<lparr>num_block := 1, hash_h := h, hash_n := n, hash_sigma := sigma,
     pad_block_size := 64\<rparr>"
  define t where "t = s0\<lparr>num_block := 1, hash_h := h, hash_n := n, hash_sigma := sigma,
     pad_block_size := 64\<rparr>"
  define t3 where "t3 = s0\<lparr>num_block := 1, hash_h := h, hash_n := n, hash_sigma := sigma,
     pad_block_size := 64 - int (length a), buff := a\<rparr>"
  have u2: "update sbox s1 b = Inr s2"
    using ab loop by (simp add: update_unfold s1_def s2_def s0_def)
  have u3: "update sbox s0 (a @ b) = Inr t"
    using ab loop by (simp add: update_unfold t_def s0_def)
  have len3: "length (a @ b @ a) = 64 + length a" using ab by simp
  have dv: "(64 + length a) div 64 = 1" "(64 + length a) mod 64 = length a" using la by simp_all
  have u4: "update sbox s0 (a @ b @ a) = Inr t3"
    using la loop' ab unfolding update_unfold
    by (simp add: s0_def t3_def len3 dv del: length_append update_loop.simps)
  have d: "digest sbox s2 = digest sbox t3"
    by (rule digest_cong) (simp_all add: s2_def t3_def s1_def s0_def)
  show ?thesis
    unfolding stale_after_split_def
    using new u1 u2 u3 u4 d by (simp add: s2_def s1_def t_def s0_def)
qed

text \<open>
  C1. Incremental hashing against one-shot hashing, at \<open>a = b'a'\<close> and \<open>b\<close> = 63 bytes
  \<open>b'b'\<close>, for both variants: both update sequences return normally and end with the same
  \<open>_hash_h\<close>, \<open>_hash_n\<close> and \<open>_hash_sigma\<close>, but \<open>update(a)\<close>, \<open>update(b)\<close> leaves
  \<open>_buff = a\<close> where \<open>update(a + b)\<close> leaves it empty, so that the incremental digest is
  the one-shot digest of \<open>a + b + a\<close>.
\<close>

theorem update_split_stale_buff:
  "stale_after_split S_BOX ''streebog256'' [0x61] (replicate 63 0x62) \<and>
   stale_after_split S_BOX ''streebog512'' [0x61] (replicate 63 0x62)"
  by (simp add: update_split_state)

section \<open>Properties of the constructor and of \<open>new\<close>\<close>

lemma check_512_collapse:
  "check_512 p q idx =
     (if idx = [] then Inr ()
      else if q = 0 then Inl ZeroDivisionError
      else if p mod q = 1 mod q
      then Inl (ValueError ''ValueError: invalid parameters of the elliptic curve'')
      else Inr ())"
  by (induction idx) simp_all

lemma check_256_small:
  "q \<noteq> 0 \<Longrightarrow> \<forall>i\<in>set idx. p ^ i mod q \<noteq> 1 mod q \<Longrightarrow> check_256 p q idx = Inr ()"
  by (induction idx) simp_all

lemma check_256_Inr: "check_256 p q idx = Inr u \<Longrightarrow> i \<in> set idx \<Longrightarrow> p ^ i mod q \<noteq> 1 mod q"
  by (induction idx) (auto split: if_splits)


lemma check_256_below:
  assumes "1 < p" "p ^ 31 < q"
  shows "check_256 p q [1..<32] = Inr ()"
proof (rule check_256_small)
  have "0 < p" using assms(1) by simp
  then have "0 < p ^ 31" by (rule zero_less_power)
  then have "0 < q" using assms(2) by (rule less_trans)
  then show "q \<noteq> 0" by simp
  show "\<forall>i\<in>set [1..<32]. p ^ i mod q \<noteq> 1 mod q"
  proof
    fix i assume "i \<in> set [1..<32]"
    then have i: "0 < i" "i \<le> 31" by simp_all
    have gt: "1 < p ^ i" using assms(1) i(1) by (simp add: one_less_power)
    have "p ^ i \<le> p ^ 31" using assms(1) i(2) by (simp add: power_increasing)
    with assms(2) have lt: "p ^ i < q" by simp
    from gt lt have "p ^ i mod q = p ^ i" by simp
    moreover from gt lt have "1 mod q = 1" by simp
    ultimately show "p ^ i mod q \<noteq> 1 mod q" using gt by simp
  qed
qed

lemma small_curve_init: "GOST34102012_init MODE_256 small_curve = Inr small_ctx"
proof -
  have "check_256 11 (2 ^ 254) [1..<32] = Inr ()"
    by (rule check_256_below) simp_all
  then show ?thesis
    by (simp add: GOST34102012_init_def MODE_256_def MODE_512_def small_curve_def small_ctx_def)
qed






lemma pred_square_mod: "(q - 1) ^ 2 mod q = 1 mod (q::int)"
proof -
  have "(q - 1) ^ 2 = 1 + (q - 2) * q" by (simp add: power2_eq_square algebra_simps)
  then show ?thesis by (simp only: mod_mult_self1)
qed

lemma pred_mod:
  assumes "2 < (q::int)"
  shows "(q - 1) mod q \<noteq> 1 mod q"
proof -
  have "0 \<le> q - 1" "q - 1 < q" using assms by simp_all
  then have a: "(q - 1) mod q = q - 1" by (rule mod_pos_pos_trivial)
  have "(0::int) \<le> 1" "1 < q" using assms by simp_all
  then have b: "1 mod q = 1" by (rule mod_pos_pos_trivial)
  show ?thesis unfolding a b using assms by simp
qed

text \<open>
  C2.  In mode 512 the constructor accepts \<open>p = 2\<^sup>5\<^sup>0\<^sup>8 - 1\<close> with \<open>q = 2\<^sup>5\<^sup>0\<^sup>8\<close>, although
  \<open>p\<^sup>2 mod q = 1 mod q\<close>: its loop tests \<open>p ** 1\<close> at every \<open>i\<close>.  In mode 256, whose
  loop tests \<open>p ** i\<close>, the same shape of parameters (\<open>p = 2\<^sup>2\<^sup>5\<^sup>4 - 1\<close>, \<open>q = 2\<^sup>2\<^sup>5\<^sup>4\<close>) is
  refused.
\<close>

theorem init_512_embedding_degree_unchecked:
  "GOST34102012_init MODE_512
     \<lparr>arg_p = 2 ^ 508 - 1, arg_a = Some 3, arg_b = Some 0, arg_e = None, arg_d = None,
      arg_m = 0, arg_q = 2 ^ 508, arg_x = Some 1, arg_y = Some 2, arg_u = None, arg_v = None\<rparr>
   = Inr \<lparr>self_p = 2 ^ 508 - 1, self_a = 3, self_b = 0, self_e = None, self_d = None,
      self_m = 0, self_q = 2 ^ 508, self_x = 1, self_y = 2, self_u = None, self_v = None,
      self_size = 64\<rparr> \<and>
   ((2::int) ^ 508 - 1) ^ 2 mod 2 ^ 508 = 1 mod 2 ^ 508 \<and>
   GOST34102012_init MODE_256
     \<lparr>arg_p = 2 ^ 254 - 1, arg_a = Some 3, arg_b = Some 0, arg_e = None, arg_d = None,
      arg_m = 0, arg_q = 2 ^ 254, arg_x = Some 1, arg_y = Some 2, arg_u = None, arg_v = None\<rparr>
   = Inl (ValueError ''ValueError: invalid parameters of the elliptic curve'')"
proof -
  have c512: "check_512 (2 ^ 508 - 1) (2 ^ 508) [1..<132] = Inr ()"
    unfolding check_512_collapse using pred_mod [of "2 ^ 508"] by simp
  have "check_256 (2 ^ 254 - 1) (2 ^ 254) (1 # 2 # [3..<32])
      = Inl (ValueError ''ValueError: invalid parameters of the elliptic curve'')"
    using pred_mod [of "2 ^ 254"] pred_square_mod [of "2 ^ 254"]
    by (simp del: upt_Suc)
  moreover have "[1..<32] = 1 # 2 # [3..<32]" by (simp add: upt_rec [of _ "numeral _"])
  ultimately have c256: "check_256 (2 ^ 254 - 1) (2 ^ 254) [1..<32]
      = Inl (ValueError ''ValueError: invalid parameters of the elliptic curve'')" by simp
  have one: "GOST34102012_init MODE_512
     \<lparr>arg_p = 2 ^ 508 - 1, arg_a = Some 3, arg_b = Some 0, arg_e = None, arg_d = None,
      arg_m = 0, arg_q = 2 ^ 508, arg_x = Some 1, arg_y = Some 2, arg_u = None, arg_v = None\<rparr>
   = Inr \<lparr>self_p = 2 ^ 508 - 1, self_a = 3, self_b = 0, self_e = None, self_d = None,
      self_m = 0, self_q = 2 ^ 508, self_x = 1, self_y = 2, self_u = None, self_v = None,
      self_size = 64\<rparr>"
    using c512 by (simp add: GOST34102012_init_def MODE_256_def MODE_512_def)
  have two: "GOST34102012_init MODE_256
     \<lparr>arg_p = 2 ^ 254 - 1, arg_a = Some 3, arg_b = Some 0, arg_e = None, arg_d = None,
      arg_m = 0, arg_q = 2 ^ 254, arg_x = Some 1, arg_y = Some 2, arg_u = None, arg_v = None\<rparr>
   = Inl (ValueError ''ValueError: invalid parameters of the elliptic curve'')"
    using c256 by (simp add: GOST34102012_init_def MODE_256_def MODE_512_def)
  show ?thesis using one two pred_square_mod [of "2 ^ 508"] by blast
qed





section \<open>Properties of \<open>verify\<close>\<close>

text \<open>Point arithmetic raises nothing but \<open>OverflowError\<close> and \<open>ZeroDivisionError\<close>.\<close>

lemma add_error:
  "add self x_1 x_2 y_1 y_2 = Inl e \<Longrightarrow> e = OverflowError \<or> e = ZeroDivisionError"
  by (auto simp: add_def int_to_bytearray_def bind_e_def Let_def split: if_splits)

lemma mul_point_loop_error:
  assumes "mul_point_loop self val x_next y_next x_prev y_prev = Some r"
  shows "\<forall>e. r = Inl e \<longrightarrow> e = OverflowError \<or> e = ZeroDivisionError"
proof (rule mul_point_loop.raw_induct
    [where P = "\<lambda>self val x_next y_next x_prev y_prev r.
       \<forall>e. r = Inl e \<longrightarrow> e = OverflowError \<or> e = ZeroDivisionError", OF _ assms])
  fix f self val x_next y_next x_prev y_prev r
  assume IH: "\<And>self val x_next y_next x_prev y_prev r.
      f self val x_next y_next x_prev y_prev = Some r \<Longrightarrow>
      \<forall>e. r = Inl e \<longrightarrow> e = OverflowError \<or> e = ZeroDivisionError"
    and step: "(if val \<noteq> 0
      then case if val AND 1 = 1 then add self x_next x_prev y_next y_prev
                else Inr (x_next, y_next) of
           Inl e \<Rightarrow> Some (Inl e)
           | Inr (x_next', y_next') \<Rightarrow>
               case add self x_prev x_prev y_prev y_prev of
               Inl e \<Rightarrow> Some (Inl e)
               | Inr (x_prev', y_prev') \<Rightarrow>
                   f self (drop_bit 1 val) x_next' y_next' x_prev' y_prev'
      else Some (Inr (x_next, y_next))) = Some r"
  from step show "\<forall>e. r = Inl e \<longrightarrow> e = OverflowError \<or> e = ZeroDivisionError"
    by (auto split: if_splits sum.splits prod.splits dest: add_error IH)
qed

lemma mul_point_error:
  "mul_point self mul_value op = Some (Inl e) \<Longrightarrow> e = OverflowError \<or> e = ZeroDivisionError"
  unfolding mul_point_def Let_def
  by (auto split: option.splits prod.splits if_splits dest!: mul_point_loop_error)

lemma int_to_bytearray_error: "int_to_bytearray n w = Inl e \<Longrightarrow> e = OverflowError"
  by (simp add: int_to_bytearray_def split: if_splits)

lemma verify_wrong_length:
  "length signature \<noteq> self_size self * 2 \<Longrightarrow>
   verify self public_key dgst signature = Some (Inl (ValueError ''ValueError: invalid signature size''))"
  by (simp add: verify_def)

lemma verify_right_length_error:
  assumes "length signature = self_size self * 2"
    and "verify self public_key dgst signature = Some (Inl e)"
  shows "e = OverflowError \<or> e = ZeroDivisionError"
  using assms unfolding verify_def Let_def
  by (auto split: if_splits sum.splits option.splits
      dest: add_error mul_point_error int_to_bytearray_error)

lemma verify_out_of_range:
  assumes "length signature = self_size self * 2"
    and "bytearray_to_int (take (self_size self) signature) \<le> 0 \<or>
         bytearray_to_int (take (self_size self) signature) \<ge> self_q self \<or>
         bytearray_to_int (drop (self_size self) signature) \<le> 0 \<or>
         bytearray_to_int (drop (self_size self) signature) \<ge> self_q self"
  shows "verify self public_key dgst signature = Some (Inr False)"
  using assms by (simp add: verify_def Let_def)

text \<open>
  C7.  \<open>verify\<close> raises \<open>ValueError\<close> exactly when the signature is not \<open>2 * size\<close>
  bytes long; and on a signature of that length whose \<open>r\<close> or \<open>s\<close> is not strictly
  between \<open>0\<close> and \<open>q\<close> it returns \<open>False\<close>.
\<close>

theorem verify_rejections:
  "((\<exists>msg. verify self public_key dgst signature = Some (Inl (ValueError msg))) \<longleftrightarrow>
      length signature \<noteq> 2 * self_size self) \<and>
   (length signature = 2 * self_size self \<and>
      (bytearray_to_int (take (self_size self) signature) \<le> 0 \<or>
       bytearray_to_int (take (self_size self) signature) \<ge> self_q self \<or>
       bytearray_to_int (drop (self_size self) signature) \<le> 0 \<or>
       bytearray_to_int (drop (self_size self) signature) \<ge> self_q self)
    \<longrightarrow> verify self public_key dgst signature = Some (Inr False))"
proof (intro conjI iffI impI)
  assume "\<exists>msg. verify self public_key dgst signature = Some (Inl (ValueError msg))"
  then obtain msg where m: "verify self public_key dgst signature = Some (Inl (ValueError msg))"
    by blast
  show "length signature \<noteq> 2 * self_size self"
  proof
    assume "length signature = 2 * self_size self"
    then have "length signature = self_size self * 2" by simp
    from verify_right_length_error [OF this m] show False by simp
  qed
next
  assume "length signature \<noteq> 2 * self_size self"
  then have "length signature \<noteq> self_size self * 2" by simp
  from verify_wrong_length [OF this]
  show "\<exists>msg. verify self public_key dgst signature = Some (Inl (ValueError msg))" by blast
next
  assume a: "length signature = 2 * self_size self \<and>
      (bytearray_to_int (take (self_size self) signature) \<le> 0 \<or>
       bytearray_to_int (take (self_size self) signature) \<ge> self_q self \<or>
       bytearray_to_int (drop (self_size self) signature) \<le> 0 \<or>
       bytearray_to_int (drop (self_size self) signature) \<ge> self_q self)"
  then have "length signature = self_size self * 2" by simp
  from verify_out_of_range [OF this] a
  show "verify self public_key dgst signature = Some (Inr False)" by blast
qed


lemma bytearray_to_int_zeros: "bytearray_to_int (replicate n 0) = 0"
proof -
  have "foldl (\<lambda>n b. 256 * n + uint b) 0 (replicate n (0::byte)) = (0::int)"
    by (induction n) simp_all
  then show ?thesis by (simp add: bytearray_to_int_def)
qed

theorem verify_rejections_witness:
  "length (replicate 64 0 :: bytes) = 2 * self_size small_ctx \<and>
   bytearray_to_int (take (self_size small_ctx) (replicate 64 0)) \<le> 0 \<and>
   verify small_ctx (replicate 64 1) (replicate 32 1) (replicate 64 0) = Some (Inr False) \<and>
   length ([] :: bytes) \<noteq> 2 * self_size small_ctx \<and>
   (\<exists>msg. verify small_ctx (replicate 64 1) (replicate 32 1) [] = Some (Inl (ValueError msg)))"
  using verify_rejections [of small_ctx "replicate 64 1" "replicate 32 1" "replicate 64 0"]
    verify_rejections [of small_ctx "replicate 64 1" "replicate 32 1" "[]"]
  by (simp add: small_ctx_def bytearray_to_int_zeros)


section \<open>Properties of \<open>_mul_point\<close>\<close>

text \<open>
  Once the accumulator holds a point, the loop of \<open>_mul_point\<close> over the bits of \<open>m\<close>
  and double-and-add over the bits of \<open>m\<close> make the same calls of \<open>_add\<close>
  (\<open>mul_point_loop_tail\<close>); started on \<open>k - 1\<close> with both variables at \<open>P\<close>, the loop
  reaches that state where double-and-add on \<open>k\<close> does (\<open>mul_point_loop_refines\<close>).
\<close>

lemma int_and_one: "int m AND 1 = 1 \<longleftrightarrow> odd m"
  by (simp add: and_one_eq mod_2_eq_odd)

lemma int_drop_bit_one: "drop_bit (Suc 0) (int m) = int (m div 2)"
  by (simp add: drop_bit_eq_div)

lemma double_and_add_loop_Some:
  "double_and_add_loop self k R Q = Inr R' \<Longrightarrow> R \<noteq> None \<Longrightarrow> R' \<noteq> None"
proof (induction self k R Q rule: double_and_add_loop.induct)
  case (1 self k R Q)
  show ?case
  proof (cases "k = 0")
    case True
    with "1.prems" show ?thesis by (simp add: double_and_add_loop.simps)
  next
    case False
    from "1.prems"(2) obtain x_r y_r where R: "R = Some (x_r, y_r)" by (cases R) auto
    from "1.prems"(1) False obtain R1 Q1 where
      s: "(if odd k
           then (case R of None \<Rightarrow> Inr (Some Q)
                 | Some (x_r, y_r) \<Rightarrow>
                     (case add self x_r (fst Q) y_r (snd Q) of Inl e \<Rightarrow> Inl e
                      | Inr r \<Rightarrow> Inr (Some r)))
           else Inr R) = Inr R1"
         "add self (fst Q) (fst Q) (snd Q) (snd Q) = Inr Q1"
         "double_and_add_loop self (k div 2) R1 Q1 = Inr R'"
      by (subst (asm) double_and_add_loop.simps) (auto split: sum.splits)
    from s(1) R have "R1 \<noteq> None" by (auto split: if_splits sum.splits)
    from "1.IH" [OF False s(1) s(2) s(3) this] show ?thesis .
  qed
qed

lemma mul_point_loop_tail:
  "mul_point_loop self (int m) xn yn xp yp =
     Some (case double_and_add_loop self m (Some (xn, yn)) (xp, yp) of
             Inl e \<Rightarrow> Inl e
           | Inr R \<Rightarrow> Inr (case R of Some r \<Rightarrow> r | None \<Rightarrow> (xn, yn)))"
proof (induction m arbitrary: xn yn xp yp rule: less_induct)
  case (less m)
  show ?case
  proof (cases "m = 0")
    case True
    then show ?thesis
      by (subst mul_point_loop.simps, subst double_and_add_loop.simps) simp
  next
    case False
    then have lt: "m div 2 < m" by simp
    show ?thesis
    proof (cases "add self xp xp yp yp")
      case (Inl e)
      then show ?thesis using False
        by (subst mul_point_loop.simps, subst double_and_add_loop.simps)
           (simp add: int_and_one split: sum.splits prod.splits)
    next
      case (Inr Q')
      obtain xq yq where Q': "Q' = (xq, yq)" by (cases Q')
      show ?thesis
      proof (cases "odd m")
        case True
        show ?thesis
        proof (cases "add self xn xp yn yp")
          case (Inl e)
          then show ?thesis using False True
            by (subst mul_point_loop.simps, subst double_and_add_loop.simps)
               (simp add: int_and_one)
        next
          case inr: (Inr N')
          obtain xn' yn' where N': "N' = (xn', yn')" by (cases N')
          show ?thesis using False True inr N' Inr Q' less.IH [OF lt, of xn' yn' xq yq]
              double_and_add_loop_Some [of self "m div 2" "Some (xn', yn')" "(xq, yq)"]
            by (subst mul_point_loop.simps, subst double_and_add_loop.simps)
               (auto simp: int_and_one int_drop_bit_one split: sum.splits option.splits)
        qed
      next
        case even: False
        show ?thesis using False even Inr Q' less.IH [OF lt, of xn yn xq yq]
          by (subst mul_point_loop.simps, subst double_and_add_loop.simps)
             (auto simp: int_and_one int_drop_bit_one split: sum.splits option.splits)
      qed
    qed
  qed
qed


lemma even_pred_and_one: "even k \<Longrightarrow> 0 < k \<Longrightarrow> (int k - 1) AND 1 = 1"
  by (simp add: and_one_eq mod_2_eq_odd)

lemma even_pred_drop_bit: "even k \<Longrightarrow> 0 < k \<Longrightarrow> drop_bit (Suc 0) (int k - 1) = int (k div 2) - 1"
  by (auto simp: drop_bit_eq_div elim!: evenE)

lemma double_and_add_loop_zero: "double_and_add_loop self 0 R Q = Inr R"
  by (subst double_and_add_loop.simps) simp

lemma odd_pred_and_one: "odd k \<Longrightarrow> (int k - 1) AND 1 \<noteq> 1"
  by (simp add: and_one_eq mod_2_eq_odd)

lemma odd_pred_drop_bit: "odd k \<Longrightarrow> drop_bit (Suc 0) (int k - 1) = int (k div 2)"
  by (auto simp: drop_bit_eq_div elim!: oddE)

lemma mul_point_loop_refines:
  "0 < k \<Longrightarrow> double_and_add_loop self k None (x, y) = Inr (Some R) \<Longrightarrow>
   mul_point_loop self (int k - 1) x y x y = Some (Inr R)"
proof (induction k arbitrary: x y rule: less_induct)
  case (less k)
  from less.prems(1) have k: "k \<noteq> 0" by simp
  from less.prems(2) k obtain Q' R1 where
    s: "(if odd k then Inr (Some (x, y)) else Inr None) = (Inr R1 :: error + (int \<times> int) option)"
       "add self x x y y = Inr Q'"
       "double_and_add_loop self (k div 2) R1 Q' = Inr (Some R)"
    by (subst (asm) double_and_add_loop.simps) (auto split: sum.splits if_splits)
  obtain xq yq where Q': "Q' = (xq, yq)" by (cases Q')
  show ?case
  proof (cases "odd k")
    case True
    with s(1) have R1: "R1 = Some (x, y)" by simp
    have pred: "int k - 1 = int (k - 1)" using less.prems(1) by simp
    show ?thesis
    proof (cases "k = 1")
      case True
      with s(3) R1 have "R = (x, y)" by (subst (asm) double_and_add_loop.simps) simp
      with True show ?thesis by (subst mul_point_loop.simps) simp
    next
      case False
      with less.prems(1) have nz: "int k - 1 \<noteq> 0" by simp
      have "mul_point_loop self (int k - 1) x y x y
          = mul_point_loop self (int (k div 2)) x y xq yq"
        using nz s(2) Q' True
        by (subst mul_point_loop.simps) (simp add: odd_pred_and_one odd_pred_drop_bit)
      also have "\<dots> = Some (Inr R)"
        using s(3) R1 Q' by (simp add: mul_point_loop_tail)
      finally show ?thesis .
    qed
  next
    case False
    with s(1) have R1: "R1 = None" by simp
    from False k have half: "0 < k div 2" "k div 2 < k" by (auto elim!: evenE)
    have nz: "int k - 1 \<noteq> 0" using False by auto
    have "mul_point_loop self (int k - 1) x y x y
        = mul_point_loop self (int (k div 2) - 1) xq yq xq yq"
      using nz s(2) Q' False less.prems(1)
      by (subst mul_point_loop.simps) (simp add: even_pred_and_one even_pred_drop_bit)
    also have "\<dots> = Some (Inr R)"
      using less.IH [OF half(2) half(1), of xq yq] s(3) R1 Q' by simp
    finally show ?thesis .
  qed
qed

lemma mul_point_refines:
  assumes "0 < k" and "x \<noteq> 0 \<or> y \<noteq> 0"
    and "double_and_add self k (x, y) = Inr (Some R)"
  shows "mul_point self (int k) (Some (x, y)) = Some (Inr R)"
  using mul_point_loop_refines [OF assms(1), of self x y R] assms(2,3)
  by (auto simp: mul_point_def double_and_add_def truthy_def)

lemma mul_point_one:
  assumes "x \<noteq> 0 \<or> y \<noteq> 0"
  shows "mul_point self 1 (Some (x, y)) = Some (Inr (x, y))"
  using assms by (subst mul_point_def, subst mul_point_loop.simps) (auto simp: truthy_def)

text \<open>
  C4, at the point \<open>(0, 0)\<close>.  The constructor accepts the small curve, \<open>(0, 0)\<close> lies on
  it, and double-and-add gives \<open>[1](0, 0) = (0, 0)\<close>; but \<open>_mul_point(1, 0, 0)\<close> returns
  the base point \<open>(1, 2)\<close>, because \<open>if x_op or y_op\<close> takes the two zero coordinates
  for a point that was not passed.  For every other point \<open>mul_point_refines\<close> and
  \<open>mul_point_one\<close> above give what C4 says.
\<close>

theorem mul_point_zero_point:
  "GOST34102012_init MODE_256 small_curve = Inr small_ctx \<and>
   on_curve small_ctx (0, 0) \<and>
   double_and_add small_ctx 1 (0, 0) = Inr (Some (0, 0)) \<and>
   mul_point small_ctx 1 (Some (0, 0)) = Some (Inr (1, 2))"
proof -
  obtain bs where bs: "int_to_bytearray 0 (self_size small_ctx) = Inr bs"
    by (simp add: int_to_bytearray_def small_ctx_def)
  have inv: "invert 0 11 = 0" by (simp add: invert_def)
  have a: "add small_ctx 0 0 0 0 = Inr (0, 0)"
    unfolding add_def bs by (simp add: compare_def small_ctx_def inv)
  have "double_and_add small_ctx 1 (0, 0) = Inr (Some (0, 0))"
    unfolding double_and_add_def
    by (subst double_and_add_loop.simps) (simp add: a double_and_add_loop_zero)
  moreover have "mul_point small_ctx 1 (Some (0, 0)) = Some (Inr (1, 2))"
    by (subst mul_point_def, subst mul_point_loop.simps) (simp add: truthy_def small_ctx_def)
  moreover have "on_curve small_ctx (0, 0)"
    by (simp add: on_curve_def small_ctx_def)
  ultimately show ?thesis using small_curve_init by simp
qed

section \<open>Properties of \<open>sign\<close> and \<open>public_key_generate\<close>\<close>

text \<open>The calls on the small curve, evaluated.\<close>

lemma length_be32: "length (be32 n) = 32"
  by (simp add: be32_def)

lemma small_ctx_size: "self_size small_ctx = 32"
  by (simp add: small_ctx_def)

lemma small_ctx_q: "self_q small_ctx = 2 ^ 254"
  by (simp add: small_ctx_def)

lemma small_ctx_base: "self_x small_ctx = 1" "self_y small_ctx = 2"
  by (simp_all add: small_ctx_def)

lemma int_to_bytearray_be32:
  "int_to_bytearray 0 32 = Inr (be32 0)" "int_to_bytearray 1 32 = Inr (be32 1)"
  "int_to_bytearray 2 32 = Inr (be32 2)" "int_to_bytearray 3 32 = Inr (be32 3)"
  "int_to_bytearray 5 32 = Inr (be32 5)" "int_to_bytearray 13 32 = Inr (be32 13)"
  by code_simp+

lemma bytearray_to_int_be32:
  "bytearray_to_int (be32 1) = 1" "bytearray_to_int (be32 2) = 2" "bytearray_to_int (be32 5) = 5"
  by code_simp+

lemma compare_to_zero_be32:
  "compare_to_zero (be32 0)" "\<not> compare_to_zero (be32 3)" "\<not> compare_to_zero (be32 5)"
  "\<not> compare_to_zero (be32 13)"
  by code_simp+

lemma be32_1_nonzero: "be32 1 \<noteq> replicate 32 0"
  by code_simp

lemma mul_point_loop_zero: "mul_point_loop self 0 x_next y_next x_prev y_prev = Some (Inr (x_next, y_next))"
  by (subst mul_point_loop.simps) simp

lemma small_add_double: "add small_ctx 1 1 2 2 = Inr (3, 6)"
  by code_simp

lemma small_mul_point_1: "mul_point small_ctx 1 None = Some (Inr (1, 2))"
  by (simp add: mul_point_def small_ctx_base mul_point_loop_zero)

lemma small_mul_point_2: "mul_point small_ctx 2 None = Some (Inr (3, 6))"
proof -
  have "mul_point_loop small_ctx 1 1 2 1 2 = Some (Inr (3, 6))"
    by (subst mul_point_loop.simps) (simp add: small_add_double mul_point_loop_zero)
  then show ?thesis by (simp add: mul_point_def small_ctx_base)
qed

lemma small_sign_r_loop:
  "sign_r_loop small_ctx [be32 1] 0 (Some (be32 2)) urandom 0 0 0 = Some (Inr (3, 2, 0))"
proof -
  have "sign_r_loop small_ctx [be32 1] 0 (Some (be32 2)) urandom 0 3 2 = Some (Inr (3, 2, 0))"
    by (subst sign_r_loop.simps)
       (simp add: small_ctx_size int_to_bytearray_be32 compare_to_zero_be32)
  then show ?thesis
    by (subst sign_r_loop.simps)
       (simp add: small_ctx_size small_ctx_q int_to_bytearray_be32 compare_to_zero_be32
          sign_rand_k_def length_be32 bytearray_to_int_be32 small_mul_point_2)
qed

lemma small_sign_s_loop:
  "sign_s_loop small_ctx [be32 1] 0 (Some (be32 2)) urandom 5 0 0 0 0 = Some (Inr (3, 13))"
proof -
  have "sign_s_loop small_ctx [be32 1] 0 (Some (be32 2)) urandom 5 0 3 13 2 = Some (Inr (3, 13))"
    by (subst sign_s_loop.simps)
       (simp add: small_ctx_size int_to_bytearray_be32 compare_to_zero_be32)
  then show ?thesis
    by (subst sign_s_loop.simps)
       (simp add: small_ctx_size small_ctx_q int_to_bytearray_be32 compare_to_zero_be32
          small_sign_r_loop bytearray_to_int_be32)
qed

lemma small_sign:
  "sign small_ctx [be32 1] 0 (be32 5) (Some (be32 2)) urandom
     = Some (Inr (be32 3 @ be32 13), [be32 1, replicate 32 0])"
  by (simp add: sign_def small_ctx_size small_ctx_q length_be32 bytearray_to_int_be32
      int_to_bytearray_be32 compare_to_zero_be32 small_sign_s_loop zero_fill_def)

lemma small_sign_wrong_rand_k:
  "sign small_ctx [be32 1] 0 (be32 5) (Some []) urandom
     = Some (Inl (ValueError ''ValueError: invalid random value size''), [be32 1, replicate 32 0])"
proof -
  have r: "sign_r_loop small_ctx [be32 1] 0 (Some []) urandom 0 0 0
      = Some (Inl (ValueError ''ValueError: invalid random value size'', [be32 1, replicate 32 0]))"
    by (subst sign_r_loop.simps)
       (simp add: small_ctx_size int_to_bytearray_be32 compare_to_zero_be32 sign_rand_k_def
          length_be32 zero_fill_def)
  have s: "sign_s_loop small_ctx [be32 1] 0 (Some []) urandom 5 0 0 0 0
      = Some (Inl (ValueError ''ValueError: invalid random value size'', [be32 1, replicate 32 0]))"
    by (subst sign_s_loop.simps)
       (simp add: small_ctx_size int_to_bytearray_be32 compare_to_zero_be32 r)
  show ?thesis
    by (simp add: sign_def small_ctx_size small_ctx_q length_be32 bytearray_to_int_be32
        int_to_bytearray_be32 compare_to_zero_be32 s)
qed

lemma small_public_key_generate:
  "public_key_generate small_ctx [be32 1] 0 = Some (Inr (be32 1 @ be32 2), [be32 1])"
  by (simp add: public_key_generate_def small_ctx_size length_be32 bytearray_to_int_be32
      small_mul_point_1 int_to_bytearray_be32)

text \<open>The store after a call is the store before it, or that store with one new buffer.\<close>

lemma sign_rand_k_store:
  "sign_rand_k self st private_key rand_k urandom pos = Some (Inl (e, st')) \<Longrightarrow>
   st' = st @ [replicate (length (st ! private_key)) 0]"
  by (auto simp: sign_rand_k_def zero_fill_def split: option.splits if_splits)

lemma sign_r_loop_store:
  assumes "sign_r_loop self st private_key rand_k urandom pos sign_r sign_k = Some res"
  shows "\<forall>e st'. res = Inl (e, st') \<longrightarrow>
           st' = st \<or> st' = st @ [replicate (length (st ! private_key)) 0]"
proof (rule sign_r_loop.raw_induct
    [where P = "\<lambda>self st private_key rand_k urandom pos sign_r sign_k res.
       \<forall>e st'. res = Inl (e, st') \<longrightarrow>
         st' = st \<or> st' = st @ [replicate (length (st ! private_key)) 0]", OF _ assms])
  fix f self st private_key rand_k urandom pos sign_r sign_k res
  assume IH: "\<And>self st private_key rand_k urandom pos sign_r sign_k res.
      f self st private_key rand_k urandom pos sign_r sign_k = Some res \<Longrightarrow>
      \<forall>e st'. res = Inl (e, st') \<longrightarrow>
         st' = st \<or> st' = st @ [replicate (length (st ! private_key)) 0]"
    and step: "(case int_to_bytearray sign_r (self_size self) of
        Inl e \<Rightarrow> Some (Inl (e, st))
      | Inr bs \<Rightarrow>
          if compare_to_zero bs then
            (case sign_rand_k self st private_key rand_k urandom pos of
               None \<Rightarrow> None
             | Some (Inl es) \<Rightarrow> Some (Inl es)
             | Some (Inr (rk, pos')) \<Rightarrow>
                 (case mul_point self (bytearray_to_int rk) None of
                    None \<Rightarrow> None
                  | Some (Inl e) \<Rightarrow> Some (Inl (e, st))
                  | Some (Inr sign_c) \<Rightarrow>
                      if self_q self = 0 then Some (Inl (ZeroDivisionError, st))
                      else f self st private_key rand_k urandom pos'
                             (fst sign_c mod self_q self) (bytearray_to_int rk)))
          else Some (Inr (sign_r, sign_k, pos))) = Some res"
  from step show "\<forall>e st'. res = Inl (e, st') \<longrightarrow>
         st' = st \<or> st' = st @ [replicate (length (st ! private_key)) 0]"
    by (auto split: sum.splits if_splits option.splits prod.splits
        dest: sign_rand_k_store dest!: IH)
qed

lemma sign_s_loop_store:
  assumes "sign_s_loop self st private_key rand_k urandom sign_e pos sign_r sign_s sign_k = Some res"
  shows "\<forall>e st'. res = Inl (e, st') \<longrightarrow>
           st' = st \<or> st' = st @ [replicate (length (st ! private_key)) 0]"
proof (rule sign_s_loop.raw_induct
    [where P = "\<lambda>self st private_key rand_k urandom sign_e pos sign_r sign_s sign_k res.
       \<forall>e st'. res = Inl (e, st') \<longrightarrow>
         st' = st \<or> st' = st @ [replicate (length (st ! private_key)) 0]", OF _ assms])
  fix f self st private_key rand_k urandom sign_e pos sign_r sign_s sign_k res
  assume IH: "\<And>self st private_key rand_k urandom sign_e pos sign_r sign_s sign_k res.
      f self st private_key rand_k urandom sign_e pos sign_r sign_s sign_k = Some res \<Longrightarrow>
      \<forall>e st'. res = Inl (e, st') \<longrightarrow>
         st' = st \<or> st' = st @ [replicate (length (st ! private_key)) 0]"
    and step: "(case int_to_bytearray sign_s (self_size self) of
        Inl e \<Rightarrow> Some (Inl (e, st))
      | Inr bs \<Rightarrow>
          if compare_to_zero bs then
            (case sign_r_loop self st private_key rand_k urandom pos sign_r sign_k of
               None \<Rightarrow> None
             | Some (Inl es) \<Rightarrow> Some (Inl es)
             | Some (Inr (sign_r', sign_k', pos')) \<Rightarrow>
                 if self_q self = 0 then Some (Inl (ZeroDivisionError, st))
                 else f self st private_key rand_k urandom sign_e pos' sign_r'
                        ((sign_r' * bytearray_to_int (st ! private_key) + sign_k' * sign_e)
                           mod self_q self)
                        sign_k')
          else Some (Inr (sign_r, sign_s))) = Some res"
  from step show "\<forall>e st'. res = Inl (e, st') \<longrightarrow>
         st' = st \<or> st' = st @ [replicate (length (st ! private_key)) 0]"
    by (auto split: sum.splits if_splits option.splits prod.splits
        dest!: sign_r_loop_store IH)
qed

lemma sign_store:
  assumes "sign self st private_key dgst rand_k urandom = Some (res, st')"
  shows "st' = st \<or> st' = st @ [replicate (length (st ! private_key)) 0]"
  using assms unfolding sign_def Let_def zero_fill_def
  by (auto split: sum.splits if_splits option.splits prod.splits dest!: sign_s_loop_store)

lemma public_key_generate_store:
  assumes "public_key_generate self st private_key = Some (res, st')"
  shows "st' = st"
  using assms unfolding public_key_generate_def Let_def
  by (auto split: sum.splits if_splits option.splits)

text \<open>
  C3.  What \<open>sign\<close> and \<open>public_key_generate\<close> do to the caller's private-key buffer:
  on every path on which they return or raise, the buffer holds what it held before the
  call.  \<open>sign\<close> only binds its local variable \<open>private_key\<close> to a new buffer of zero
  bytes, and \<open>public_key_generate\<close> binds it to \<open>0\<close>.
\<close>

theorem private_key_buffer_unchanged:
  "(sign self st private_key dgst rand_k urandom = Some (res, st') \<and> private_key < length st
      \<longrightarrow> st' ! private_key = st ! private_key) \<and>
   (public_key_generate self st private_key = Some (res', st'') \<longrightarrow> st'' = st)"
proof (intro conjI impI)
  assume a: "sign self st private_key dgst rand_k urandom = Some (res, st') \<and> private_key < length st"
  then have "st' = st \<or> st' = st @ [replicate (length (st ! private_key)) 0]"
    using sign_store by blast
  with a show "st' ! private_key = st ! private_key" by (auto simp: nth_append)
next
  assume "public_key_generate self st private_key = Some (res', st'')"
  then show "st'' = st" by (rule public_key_generate_store)
qed

theorem private_key_buffer_unchanged_witness:
  "sign small_ctx [be32 1] 0 (be32 5) (Some (be32 2)) (\<lambda>n. [])
     = Some (Inr (be32 3 @ be32 13), [be32 1, replicate 32 0]) \<and>
   sign small_ctx [be32 1] 0 (be32 5) (Some []) (\<lambda>n. [])
     = Some (Inl (ValueError ''ValueError: invalid random value size''), [be32 1, replicate 32 0]) \<and>
   public_key_generate small_ctx [be32 1] 0 = Some (Inr (be32 1 @ be32 2), [be32 1]) \<and>
   (0::nat) < length [be32 1] \<and>
   [be32 1, replicate 32 0] ! 0 = [be32 1] ! 0 \<and> [be32 1] ! 0 = be32 1 \<and>
   be32 1 \<noteq> replicate 32 0"
  using private_key_buffer_unchanged [of small_ctx "[be32 1]" 0 "be32 5" "Some (be32 2)" "\<lambda>n. []"
      "Inr (be32 3 @ be32 13)" "[be32 1, replicate 32 0]" "Inr (be32 1 @ be32 2)" "[be32 1]"]
    small_sign small_sign_wrong_rand_k small_public_key_generate be32_1_nonzero
  by simp

end
